theory Spec2Isabelle
  imports Complex_Main
begin

section \<open>JavaScript numbers\<close>

text \<open>
  The engine computes with JavaScript numbers. A number is modelled as a real, or one of
  the three special values that a division can produce. Arithmetic on finite values is
  taken exact: rounding, overflow and the sign of zero are not modelled. A variable that
  only ever receives sums, differences and products of finite values (equities, profits,
  parameters) has type \<open>real\<close>; a counter that starts at 0 and is only incremented has
  type \<open>nat\<close>; every value that comes out of a division has type \<open>jsnum\<close>.

  What is proved below is therefore about counts, labels, the order of values and the
  special values of divisions by zero, which the double arithmetic of the code shares,
  and about amounts only on inputs where the double operations are exact. The exact value
  of an accumulated amount in general, and what happens to amounts near the largest
  double, are outside this development.
\<close>

datatype jsnum = Fin real | PInf | NInf | NaN

fun js_mul :: "jsnum \<Rightarrow> jsnum \<Rightarrow> jsnum" where
  "js_mul NaN y = NaN"
| "js_mul x NaN = NaN"
| "js_mul (Fin a) (Fin b) = Fin (a * b)"
| "js_mul (Fin a) PInf = (if a = 0 then NaN else if 0 < a then PInf else NInf)"
| "js_mul (Fin a) NInf = (if a = 0 then NaN else if 0 < a then NInf else PInf)"
| "js_mul PInf (Fin b) = (if b = 0 then NaN else if 0 < b then PInf else NInf)"
| "js_mul NInf (Fin b) = (if b = 0 then NaN else if 0 < b then NInf else PInf)"
| "js_mul PInf PInf = PInf"
| "js_mul PInf NInf = NInf"
| "js_mul NInf PInf = NInf"
| "js_mul NInf NInf = PInf"

fun js_div :: "jsnum \<Rightarrow> jsnum \<Rightarrow> jsnum" where
  "js_div NaN y = NaN"
| "js_div x NaN = NaN"
| "js_div (Fin a) (Fin b) =
     (if b = 0 then (if a = 0 then NaN else if 0 < a then PInf else NInf)
      else Fin (a / b))"
| "js_div (Fin a) PInf = Fin 0"
| "js_div (Fin a) NInf = Fin 0"
| "js_div PInf (Fin b) = (if 0 \<le> b then PInf else NInf)"
| "js_div NInf (Fin b) = (if 0 \<le> b then NInf else PInf)"
| "js_div PInf PInf = NaN"
| "js_div PInf NInf = NaN"
| "js_div NInf PInf = NaN"
| "js_div NInf NInf = NaN"

text \<open>\<open>x < y\<close> and \<open>x > y\<close>: false as soon as one side is NaN.\<close>

fun js_lt :: "jsnum \<Rightarrow> jsnum \<Rightarrow> bool" where
  "js_lt NaN y = False"
| "js_lt x NaN = False"
| "js_lt (Fin a) (Fin b) = (a < b)"
| "js_lt (Fin a) PInf = True"
| "js_lt (Fin a) NInf = False"
| "js_lt PInf y = False"
| "js_lt NInf (Fin b) = True"
| "js_lt NInf PInf = True"
| "js_lt NInf NInf = False"

definition js_gt :: "jsnum \<Rightarrow> jsnum \<Rightarrow> bool" where
  "js_gt x y = js_lt y x"

definition js_le :: "jsnum \<Rightarrow> jsnum \<Rightarrow> bool" where
  "js_le x y = (x \<noteq> NaN \<and> y \<noteq> NaN \<and> (x = y \<or> js_lt x y))"

text \<open>Truthiness of a number, and \<open>x || y\<close>: 0 and NaN are falsy.\<close>

fun js_truthy :: "jsnum \<Rightarrow> bool" where
  "js_truthy (Fin a) = (a \<noteq> 0)"
| "js_truthy PInf = True"
| "js_truthy NInf = True"
| "js_truthy NaN = False"

definition js_or :: "jsnum \<Rightarrow> jsnum \<Rightarrow> jsnum" where
  "js_or x y = (if js_truthy x then x else y)"

definition is_finite :: "jsnum \<Rightarrow> bool" where
  "is_finite x = (case x of Fin a \<Rightarrow> True | _ \<Rightarrow> False)"

section \<open>Dates\<close>

text \<open>
  A \<open>Date\<close> object is its time value: milliseconds since 1970-01-01T00:00Z. The getters
  the engine calls (\<open>getDay\<close>, \<open>getDate\<close>, \<open>getFullYear\<close>, \<open>toLocaleString\<close>) and
  \<open>setDate\<close> work in the local time zone of the host, which is the parameter \<open>tz\<close>:
  minutes east of UTC, constant over the run (daylight-saving changes are not modelled).
  The calendar is the proleptic Gregorian one, computed from the day number.
\<close>

type_synonym Date = int

definition msPerDay :: int where
  "msPerDay = 86400000"

definition localDay :: "int \<Rightarrow> Date \<Rightarrow> int" where
  "localDay tz t = (t + tz * 60000) div msPerDay"

text \<open>
  Day number to (year, month 1..12, day of month), and back. Years are counted from
  1 March within 400-year eras of 146097 days, so that the leap day is the last day of
  its year.
\<close>

definition yearOfEra :: "int \<Rightarrow> int" where
  "yearOfEra doe = (doe - doe div 1460 + doe div 36524 - doe div 146096) div 365"

definition dayOfYear :: "int \<Rightarrow> int \<Rightarrow> int" where
  "dayOfYear doe yoe = doe - (365 * yoe + yoe div 4 - yoe div 100)"

definition monthOfYear :: "int \<Rightarrow> int" where
  "monthOfYear doy = (5 * doy + 2) div 153"

definition civil :: "int \<Rightarrow> int \<Rightarrow> int \<Rightarrow> int \<times> int \<times> int" where
  "civil y doy mp =
     (if mp < 10 then (y, mp + 3, doy - (153 * mp + 2) div 5 + 1)
      else (y + 1, mp - 9, doy - (153 * mp + 2) div 5 + 1))"

definition civil_from_era :: "int \<Rightarrow> int \<Rightarrow> int \<times> int \<times> int" where
  "civil_from_era era doe =
     civil (yearOfEra doe + era * 400) (dayOfYear doe (yearOfEra doe))
       (monthOfYear (dayOfYear doe (yearOfEra doe)))"

definition civil_from_days :: "int \<Rightarrow> int \<times> int \<times> int" where
  "civil_from_days z = civil_from_era ((z + 719468) div 146097) ((z + 719468) mod 146097)"

definition days_from_era :: "int \<Rightarrow> int \<Rightarrow> int \<Rightarrow> int" where
  "days_from_era era yoe doy = era * 146097 + (yoe * 365 + yoe div 4 - yoe div 100 + doy) - 719468"

definition days_from_civil :: "int \<Rightarrow> int \<Rightarrow> int \<Rightarrow> int" where
  "days_from_civil y m d =
     (if m \<le> 2
      then days_from_era ((y - 1) div 400) ((y - 1) mod 400) ((153 * (m + 9) + 2) div 5 + d - 1)
      else days_from_era (y div 400) (y mod 400) ((153 * (m - 3) + 2) div 5 + d - 1))"

text \<open>\<open>new Date("YYYY-MM-DD")\<close>: a date-only string is midnight UTC of that day.\<close>

definition newDate :: "int \<Rightarrow> int \<Rightarrow> int \<Rightarrow> Date" where
  "newDate y m d = days_from_civil y m d * msPerDay"

text \<open>\<open>new Date(year, monthIndex, day)\<close>: midnight local time.\<close>

definition newDateLocal :: "int \<Rightarrow> int \<Rightarrow> int \<Rightarrow> int \<Rightarrow> Date" where
  "newDateLocal tz y mi d = days_from_civil y (mi + 1) d * msPerDay - tz * 60000"

text \<open>\<open>getDay\<close>: 0 is Sunday, 6 is Saturday; 1970-01-01 was a Thursday.\<close>

definition getDay :: "int \<Rightarrow> Date \<Rightarrow> int" where
  "getDay tz t = (localDay tz t + 4) mod 7"

definition getFullYear :: "int \<Rightarrow> Date \<Rightarrow> int" where
  "getFullYear tz t = fst (civil_from_days (localDay tz t))"

definition getMonth :: "int \<Rightarrow> Date \<Rightarrow> int" where
  "getMonth tz t = fst (snd (civil_from_days (localDay tz t))) - 1"

definition getDate :: "int \<Rightarrow> Date \<Rightarrow> int" where
  "getDate tz t = snd (snd (civil_from_days (localDay tz t)))"

text \<open>
  \<open>d.setDate(d.getDate() + 1)\<close>: the next local calendar day at the same local time,
  which is 24 hours later under a constant offset.
\<close>

definition nextDay :: "Date \<Rightarrow> Date" where
  "nextDay t = t + msPerDay"

text \<open>
  \<open>toLocaleString('default', {month: 'short'})\<close>, for an English locale.
\<close>

definition monthShort :: "int \<Rightarrow> string" where
  "monthShort mi =
     [''Jan'', ''Feb'', ''Mar'', ''Apr'', ''May'', ''Jun'',
      ''Jul'', ''Aug'', ''Sep'', ''Oct'', ''Nov'', ''Dec''] ! nat mi"

text \<open>Template-literal conversion of an integer to its decimal digits.\<close>

definition digit :: "nat \<Rightarrow> char" where
  "digit n = ''0123456789'' ! n"

fun digits :: "nat \<Rightarrow> string" where
  "digits n = (if n < 10 then [digit n] else digits (n div 10) @ [digit (n mod 10)])"

declare digits.simps [simp del]

definition showInt :: "int \<Rightarrow> string" where
  "showInt i = (if i < 0 then CHR ''-'' # digits (nat (- i)) else digits (nat i))"

record DateInfo =
  fullDate :: string
  month :: string
  week :: string
  dateObj :: Date

text \<open>The entry \<open>generateDates\<close> pushes for a kept day.\<close>

definition weekNumber :: "int \<Rightarrow> Date \<Rightarrow> int" where
  "weekNumber tz currentDate =
     (let firstDayOfYear = newDateLocal tz (getFullYear tz currentDate) 0 1;
          pastDaysOfYear = real_of_int (currentDate - firstDayOfYear) / 86400000
      in \<lceil>(pastDaysOfYear + real_of_int (getDay tz firstDayOfYear) + 1) / 7\<rceil>)"

definition dateInfo :: "int \<Rightarrow> Date \<Rightarrow> DateInfo" where
  "dateInfo tz currentDate =
     (let mon = monthShort (getMonth tz currentDate);
          day = getDate tz currentDate;
          year = getFullYear tz currentDate
      in \<lparr> fullDate = mon @ '' '' @ showInt day @ '' '' @ showInt year,
           month = mon @ '' '' @ showInt year,
           week = ''Week '' @ showInt (weekNumber tz currentDate) @ '', '' @ showInt year,
           dateObj = currentDate \<rparr>)"

function generateDates_loop :: "int \<Rightarrow> Date \<Rightarrow> Date \<Rightarrow> DateInfo list \<Rightarrow> DateInfo list" where
  "generateDates_loop tz endDate currentDate dates =
     (if currentDate \<le> endDate
      then generateDates_loop tz endDate (nextDay currentDate)
             (if getDay tz currentDate \<noteq> 0 \<and> getDay tz currentDate \<noteq> 6
              then dates @ [dateInfo tz currentDate] else dates)
      else dates)"
  by pat_completeness auto
termination
  by (relation "measure (\<lambda>(tz, endDate, currentDate, dates). nat (endDate - currentDate + 1))")
     (auto simp: nextDay_def msPerDay_def)

declare generateDates_loop.simps [simp del]

definition generateDates :: "int \<Rightarrow> Date \<Rightarrow> Date \<Rightarrow> DateInfo list" where
  "generateDates tz startDate endDate = generateDates_loop tz endDate startDate []"

section \<open>Data model\<close>

text \<open>
  \<open>SimulationSettings\<close>, restricted to the fields the engine reads. \<open>startDate\<close> and
  \<open>endDate\<close> hold the time values of \<open>new Date(params.startDate)\<close> and
  \<open>new Date(params.endDate)\<close>; the settings form submits date-only strings, whose time
  value is \<open>newDate y m d\<close>, and rejects strings that are not dates.
\<close>

record SimulationSettings =
  startDate :: Date
  endDate :: Date
  tradesPerDay :: real
  winRate :: real
  riskRewardRatio :: real
  riskPerTrade :: real
  startingEquity :: real

record EquityPoint =
  ep_date :: string
  ep_equity :: real
  ep_month :: string
  ep_week :: string

text \<open>
  \<open>MonthlyStats\<close> and \<open>WeeklyStats\<close> have the same fields; \<open>label\<close> is the field
  \<open>month\<close> of the first and \<open>week\<close> of the second.
\<close>

record BucketStats =
  label :: string
  wins :: nat
  losses :: nat
  profitLoss :: real
  trades :: nat

text \<open>An entry of \<open>monthlyBreakdown\<close> or \<open>weeklyBreakdown\<close>: the bucket and its win rate.\<close>

record Breakdown = BucketStats +
  winRateFixed :: string

text \<open>
  \<open>Record<string, MonthlyStats>\<close>: the keys in insertion order, which is the order
  \<open>Object.values\<close> lists them in (no key is an array index).
\<close>

type_synonym buckets = "(string \<times> BucketStats) list"

text \<open>
  The local variables of the effect, and \<open>calls\<close>, the number of calls of
  \<open>Math.random\<close> made so far: the random source is a sequence \<open>rnd\<close> of draws, and
  the next call returns \<open>rnd calls\<close>.
\<close>

record sim_state =
  runningEquity :: real
  dayEquity :: real
  equityCurve :: "EquityPoint list"
  monthlyStats :: buckets
  weeklyStats :: buckets
  totalWins :: nat
  totalLosses :: nat
  totalTrades :: nat
  currentWinStreak :: nat
  currentLossStreak :: nat
  maxWinStreak :: nat
  maxLossStreak :: nat
  winStreakStart :: "string option"
  lossStreakStart :: "string option"
  maxWinStreakStart :: "string option"
  maxWinStreakEnd :: "string option"
  maxLossStreakStart :: "string option"
  maxLossStreakEnd :: "string option"
  peakEquity :: real
  currentDrawdown :: jsnum
  maxDrawdown :: jsnum
  drawdownStart :: "string option"
  drawdownEnd :: "string option"
  maxDrawdownStart :: "string option"
  maxDrawdownEnd :: "string option"
  calls :: nat

record SimulationStats =
  stats_winRate :: jsnum
  stats_avgRPerDay :: jsnum
  stats_avgRPerWeek :: jsnum
  stats_avgTradesPerDay :: jsnum
  stats_initialEquity :: real
  stats_totalProfit :: real
  stats_finalEquity :: real
  stats_maxWinStreak :: nat
  stats_maxLossStreak :: nat
  stats_maxDrawdown :: jsnum
  stats_maxDrawdownPeriod :: string
  stats_maxWinStreakPeriod :: string
  stats_maxLossStreakPeriod :: string
  stats_equityCurve :: "EquityPoint list"
  stats_monthlyBreakdown :: "Breakdown list"
  stats_weeklyBreakdown :: "Breakdown list"
  stats_totalTrades :: nat
  stats_riskRewardRatio :: real

section \<open>Bucket maps\<close>

definition emptyBucket :: "string \<Rightarrow> BucketStats" where
  "emptyBucket k = \<lparr> label = k, wins = 0, losses = 0, profitLoss = 0, trades = 0 \<rparr>"

text \<open>\<open>if (!m[k]) m[k] = {...}\<close>: a stored bucket is an object, hence truthy.\<close>

definition register :: "string \<Rightarrow> buckets \<Rightarrow> buckets" where
  "register k m = (if map_of m k = None then m @ [(k, emptyBucket k)] else m)"

text \<open>
  \<open>m[k].field\<close> updated in place. With \<open>k\<close> absent the source would throw a TypeError
  and the model leaves the map as it is; \<open>registered_runDays\<close> below shows that the
  engine only updates keys it has registered.
\<close>

definition modify :: "string \<Rightarrow> (BucketStats \<Rightarrow> BucketStats) \<Rightarrow> buckets \<Rightarrow> buckets" where
  "modify k f m = map (\<lambda>(k', b). if k' = k then (k', f b) else (k', b)) m"

fun registerDates :: "DateInfo list \<Rightarrow> buckets \<times> buckets \<Rightarrow> buckets \<times> buckets" where
  "registerDates [] mw = mw"
| "registerDates (date # dates) (ms, ws) =
     registerDates dates (register (month date) ms, register (week date) ws)"

section \<open>Trial simulator\<close>

definition winUpdate :: "SimulationSettings \<Rightarrow> DateInfo \<Rightarrow> sim_state \<Rightarrow> sim_state" where
  "winUpdate p date s =
     (let rewardPerTrade = riskPerTrade p * riskRewardRatio p;
          start = (if currentWinStreak s = 0 then Some (fullDate date) else winStreakStart s);
          streak = currentWinStreak s + 1;
          s1 = s\<lparr> dayEquity := dayEquity s + rewardPerTrade,
                 totalWins := totalWins s + 1,
                 monthlyStats := modify (month date)
                    (\<lambda>b. b\<lparr> wins := wins b + 1, profitLoss := profitLoss b + rewardPerTrade \<rparr>)
                    (monthlyStats s),
                 weeklyStats := modify (week date)
                    (\<lambda>b. b\<lparr> wins := wins b + 1, profitLoss := profitLoss b + rewardPerTrade \<rparr>)
                    (weeklyStats s),
                 winStreakStart := start,
                 currentWinStreak := streak,
                 currentLossStreak := 0 \<rparr>
      in if maxWinStreak s < streak
         then s1\<lparr> maxWinStreak := streak, maxWinStreakStart := start,
                  maxWinStreakEnd := Some (fullDate date) \<rparr>
         else s1)"

definition lossUpdate :: "SimulationSettings \<Rightarrow> DateInfo \<Rightarrow> sim_state \<Rightarrow> sim_state" where
  "lossUpdate p date s =
     (let start = (if currentLossStreak s = 0 then Some (fullDate date) else lossStreakStart s);
          streak = currentLossStreak s + 1;
          s1 = s\<lparr> dayEquity := dayEquity s - riskPerTrade p,
                 totalLosses := totalLosses s + 1,
                 monthlyStats := modify (month date)
                    (\<lambda>b. b\<lparr> losses := losses b + 1, profitLoss := profitLoss b - riskPerTrade p \<rparr>)
                    (monthlyStats s),
                 weeklyStats := modify (week date)
                    (\<lambda>b. b\<lparr> losses := losses b + 1, profitLoss := profitLoss b - riskPerTrade p \<rparr>)
                    (weeklyStats s),
                 lossStreakStart := start,
                 currentLossStreak := streak,
                 currentWinStreak := 0 \<rparr>
      in if maxLossStreak s < streak
         then s1\<lparr> maxLossStreak := streak, maxLossStreakStart := start,
                  maxLossStreakEnd := Some (fullDate date) \<rparr>
         else s1)"

text \<open>
  One iteration of the inner loop: one draw, one trade. The trade is a win when the draw
  is below \<open>targetWinRate = params.winRate / 100\<close>, here the exact quotient where the
  code has its nearest double.
\<close>

definition isWin :: "SimulationSettings \<Rightarrow> (nat \<Rightarrow> real) \<Rightarrow> sim_state \<Rightarrow> bool" where
  "isWin p rnd s = (rnd (calls s) < winRate p / 100)"

definition trade ::
  "SimulationSettings \<Rightarrow> (nat \<Rightarrow> real) \<Rightarrow> DateInfo \<Rightarrow> sim_state \<Rightarrow> sim_state" where
  "trade p rnd date s =
     (let s1 = (if isWin p rnd s then winUpdate p date s else lossUpdate p date s)
      in s1\<lparr> totalTrades := totalTrades s1 + 1,
              monthlyStats :=
                modify (month date) (\<lambda>b. b\<lparr> trades := trades b + 1 \<rparr>) (monthlyStats s1),
              weeklyStats :=
                modify (week date) (\<lambda>b. b\<lparr> trades := trades b + 1 \<rparr>) (weeklyStats s1),
              calls := calls s1 + 1 \<rparr>)"

text \<open>\<open>for (let j = 0; j < tradesPerDay; j++)\<close>\<close>

function tradeLoop ::
  "SimulationSettings \<Rightarrow> (nat \<Rightarrow> real) \<Rightarrow> DateInfo \<Rightarrow> nat \<Rightarrow> sim_state \<Rightarrow> sim_state" where
  "tradeLoop p rnd date j s =
     (if real j < tradesPerDay p then tradeLoop p rnd date (j + 1) (trade p rnd date s) else s)"
  by pat_completeness auto
termination
proof (relation "measure (\<lambda>(p, rnd, date, j, s). nat \<lceil>tradesPerDay p\<rceil> - j)")
  show "wf (measure (\<lambda>(p, rnd, date, j, s). nat \<lceil>tradesPerDay p\<rceil> - j))"
    by simp
next
  fix p :: SimulationSettings and rnd :: "nat \<Rightarrow> real" and date :: DateInfo
    and j :: nat and s :: sim_state
  assume "real j < tradesPerDay p"
  then have "int j < \<lceil>tradesPerDay p\<rceil>"
    by linarith
  then show "((p, rnd, date, j + 1, trade p rnd date s), (p, rnd, date, j, s))
      \<in> measure (\<lambda>(p, rnd, date, j, s). nat \<lceil>tradesPerDay p\<rceil> - j)"
    by simp
qed

declare tradeLoop.simps [simp del]

text \<open>A string variable that is \<open>null\<close> or empty is falsy.\<close>

definition str_falsy :: "string option \<Rightarrow> bool" where
  "str_falsy x = (x = None \<or> x = Some [])"

definition str_or :: "string option \<Rightarrow> string \<Rightarrow> string" where
  "str_or x d = (case x of None \<Rightarrow> d | Some v \<Rightarrow> if v = [] then d else v)"

text \<open>After the trades of the day: peak, drawdown, equity curve, running equity.\<close>

definition drawdownUpdate :: "DateInfo \<Rightarrow> sim_state \<Rightarrow> sim_state" where
  "drawdownUpdate date s =
     (if peakEquity s < dayEquity s
      then s\<lparr> peakEquity := dayEquity s, currentDrawdown := Fin 0, drawdownStart := None \<rparr>
      else
        let drawdownAmount = peakEquity s - dayEquity s;
            drawdownPercentage =
              js_mul (js_div (Fin drawdownAmount) (Fin (peakEquity s))) (Fin 100)
        in if js_gt drawdownPercentage (currentDrawdown s)
           then
             let s1 = s\<lparr> currentDrawdown := drawdownPercentage,
                        drawdownStart := (if str_falsy (drawdownStart s)
                                          then Some (fullDate date) else drawdownStart s),
                        drawdownEnd := Some (fullDate date) \<rparr>
             in if js_gt (currentDrawdown s1) (maxDrawdown s1)
                then s1\<lparr> maxDrawdown := currentDrawdown s1,
                         maxDrawdownStart := drawdownStart s1,
                         maxDrawdownEnd := drawdownEnd s1 \<rparr>
                else s1
           else s)"

definition simulateDay ::
  "SimulationSettings \<Rightarrow> (nat \<Rightarrow> real) \<Rightarrow> DateInfo \<Rightarrow> sim_state \<Rightarrow> sim_state" where
  "simulateDay p rnd date s =
     (let s1 = tradeLoop p rnd date 0 (s\<lparr> dayEquity := runningEquity s \<rparr>);
          s2 = drawdownUpdate date s1
      in s2\<lparr> equityCurve := equityCurve s2 @
                 [\<lparr> ep_date = fullDate date, ep_equity = dayEquity s2,
                    ep_month = month date, ep_week = week date \<rparr>],
              runningEquity := dayEquity s2 \<rparr>)"

text \<open>\<open>for (let i = 0; i < dates.length; i++)\<close>\<close>

fun runDays ::
  "SimulationSettings \<Rightarrow> (nat \<Rightarrow> real) \<Rightarrow> DateInfo list \<Rightarrow> sim_state \<Rightarrow> sim_state" where
  "runDays p rnd [] s = s"
| "runDays p rnd (date # dates) s = runDays p rnd dates (simulateDay p rnd date s)"

text \<open>The state before the main loop: buckets registered, seed point pushed.\<close>

definition initState :: "SimulationSettings \<Rightarrow> DateInfo list \<Rightarrow> sim_state" where
  "initState p dates =
     (let initialEquity = startingEquity p;
          mw = registerDates dates ([], [])
      in \<lparr> runningEquity = initialEquity,
           dayEquity = initialEquity,
           equityCurve =
             (case dates of
                [] \<Rightarrow> []
              | d0 # ds \<Rightarrow>
                  [\<lparr> ep_date = str_or (Some (fullDate d0)) ''Start'',
                     ep_equity = initialEquity,
                     ep_month = str_or (Some (month d0)) ''Start'',
                     ep_week = str_or (Some (week d0)) ''Week 1'' \<rparr>]),
           monthlyStats = fst mw,
           weeklyStats = snd mw,
           totalWins = 0, totalLosses = 0, totalTrades = 0,
           currentWinStreak = 0, currentLossStreak = 0,
           maxWinStreak = 0, maxLossStreak = 0,
           winStreakStart = None, lossStreakStart = None,
           maxWinStreakStart = None, maxWinStreakEnd = None,
           maxLossStreakStart = None, maxLossStreakEnd = None,
           peakEquity = initialEquity,
           currentDrawdown = Fin 0, maxDrawdown = Fin 0,
           drawdownStart = None, drawdownEnd = None,
           maxDrawdownStart = None, maxDrawdownEnd = None,
           calls = 0 \<rparr>)"

section \<open>Aggregator and summary builder\<close>

text \<open>
  \<open>x.toFixed(2)\<close> for a real below \<open>10\<^sup>2\<^sup>1\<close> in absolute value: the nearest multiple
  of 0.01, the larger one on a tie, with two decimals.
\<close>

definition toFixed2 :: "jsnum \<Rightarrow> string" where
  "toFixed2 x =
     (case x of
        NaN \<Rightarrow> ''NaN''
      | PInf \<Rightarrow> ''Infinity''
      | NInf \<Rightarrow> ''-Infinity''
      | Fin a \<Rightarrow>
          (let n = nat \<lfloor>\<bar>a\<bar> * 100 + 1 / 2\<rfloor>
           in (if a < 0 then ''-'' else []) @ digits (n div 100) @ ''.''
                @ digits (n mod 100 div 10) @ digits (n mod 10)))"

definition bucketWinRate :: "'a BucketStats_scheme \<Rightarrow> jsnum" where
  "bucketWinRate b =
     js_or (js_mul (js_div (Fin (real (wins b))) (Fin (real (wins b + losses b)))) (Fin 100))
           (Fin 0)"

definition breakdown :: "buckets \<Rightarrow> Breakdown list" where
  "breakdown m =
     map (\<lambda>b. BucketStats.extend b (Breakdown.fields (toFixed2 (bucketWinRate b)))) (map snd m)"

definition period :: "string option \<Rightarrow> string option \<Rightarrow> string" where
  "period a b = str_or a ''N/A'' @ '' to '' @ str_or b ''N/A''"

definition summary :: "SimulationSettings \<Rightarrow> DateInfo list \<Rightarrow> sim_state \<Rightarrow> SimulationStats" where
  "summary p dates s =
     (let initialEquity = startingEquity p;
          actualWinRate =
            js_or (js_mul (js_div (Fin (real (totalWins s)))
                                  (Fin (real (totalWins s + totalLosses s)))) (Fin 100))
                  (Fin (winRate p));
          totalProfit = runningEquity s - initialEquity;
          avgRPerDay =
            js_or (js_div (Fin totalProfit) (Fin (riskPerTrade p * real (length dates)))) (Fin 0);
          avgRPerWeek = js_mul avgRPerDay (Fin 5);
          actualAvgTradesPerDay =
            js_or (js_div (Fin (real (totalTrades s))) (Fin (real (length dates))))
                  (Fin (tradesPerDay p))
      in \<lparr> stats_winRate = actualWinRate,
           stats_avgRPerDay = avgRPerDay,
           stats_avgRPerWeek = avgRPerWeek,
           stats_avgTradesPerDay = actualAvgTradesPerDay,
           stats_initialEquity = initialEquity,
           stats_totalProfit = totalProfit,
           stats_finalEquity = runningEquity s,
           stats_maxWinStreak = maxWinStreak s,
           stats_maxLossStreak = maxLossStreak s,
           stats_maxDrawdown = maxDrawdown s,
           stats_maxDrawdownPeriod = period (maxDrawdownStart s) (maxDrawdownEnd s),
           stats_maxWinStreakPeriod = period (maxWinStreakStart s) (maxWinStreakEnd s),
           stats_maxLossStreakPeriod = period (maxLossStreakStart s) (maxLossStreakEnd s),
           stats_equityCurve = equityCurve s,
           stats_monthlyBreakdown = breakdown (monthlyStats s),
           stats_weeklyBreakdown = breakdown (weeklyStats s),
           stats_totalTrades = totalTrades s,
           stats_riskRewardRatio = riskRewardRatio p \<rparr>)"

text \<open>The run on a given calendar, and the whole effect.\<close>

definition finalState ::
  "SimulationSettings \<Rightarrow> (nat \<Rightarrow> real) \<Rightarrow> DateInfo list \<Rightarrow> sim_state" where
  "finalState p rnd dates = runDays p rnd dates (initState p dates)"

definition runSimulation ::
  "SimulationSettings \<Rightarrow> (nat \<Rightarrow> real) \<Rightarrow> DateInfo list \<Rightarrow> SimulationStats" where
  "runSimulation p rnd dates = summary p dates (finalState p rnd dates)"

definition simulate :: "int \<Rightarrow> (nat \<Rightarrow> real) \<Rightarrow> SimulationSettings \<Rightarrow> SimulationStats" where
  "simulate tz rnd p = runSimulation p rnd (generateDates tz (startDate p) (endDate p))"

section \<open>Example runs\<close>

text \<open>
  A run over the single trading day 2025-01-01 (a Wednesday) with \<open>n\<close> trades per day
  and starting equity \<open>e\<close>, and a random source whose first draw (0.9) loses at a win
  rate of 55 and whose later draws (0.1) win.
\<close>

definition oneDay :: "real \<Rightarrow> real \<Rightarrow> SimulationSettings" where
  "oneDay n e =
     \<lparr> startDate = newDate 2025 1 1, endDate = newDate 2025 1 1, tradesPerDay = n,
       winRate = 55, riskRewardRatio = 2, riskPerTrade = 100, startingEquity = e \<rparr>"

definition lossThenWins :: "nat \<Rightarrow> real" where
  "lossThenWins k = (if k = 0 then 9 / 10 else 1 / 10)"

definition jan1 :: DateInfo where
  "jan1 = \<lparr> fullDate = ''Jan 1 2025'', month = ''Jan 2025'', week = ''Week 1, 2025'',
            dateObj = 1735689600000 \<rparr>"

text \<open>
  The scenario of the specification: 2025-01-01 to 2025-01-10, one trade per day, risk
  100, reward 200, starting equity 1000, at win rate \<open>w\<close>.
\<close>

definition scenario :: "real \<Rightarrow> SimulationSettings" where
  "scenario w =
     \<lparr> startDate = newDate 2025 1 1, endDate = newDate 2025 1 10, tradesPerDay = 1,
       winRate = w, riskRewardRatio = 2, riskPerTrade = 100, startingEquity = 1000 \<rparr>"


text \<open>
  The state of the scenario at win rate 0 after \<open>n\<close> days, each with its one losing
  trade.
\<close>

definition lostDays :: "nat \<Rightarrow> sim_state \<Rightarrow> bool" where
  "lostDays n s =
     (runningEquity s = 1000 - 100 * real n \<and> peakEquity s = 1000 \<and>
      totalWins s = 0 \<and> totalLosses s = n \<and> totalTrades s = n \<and>
      currentWinStreak s = 0 \<and> maxWinStreak s = 0 \<and>
      currentLossStreak s = n \<and> maxLossStreak s = n \<and>
      currentDrawdown s = Fin (10 * real n) \<and> maxDrawdown s = Fin (10 * real n))"

section \<open>Invariants of the bucket maps\<close>

text \<open>
  The net effect of one trade on the bucket of its day: the outcome counter, the signed
  profit and the trade counter.
\<close>

definition bucketTrade :: "SimulationSettings \<Rightarrow> bool \<Rightarrow> BucketStats \<Rightarrow> BucketStats" where
  "bucketTrade p w b =
     (if w then b\<lparr> wins := wins b + 1,
                   profitLoss := profitLoss b + riskPerTrade p * riskRewardRatio p,
                   trades := trades b + 1 \<rparr>
      else b\<lparr> losses := losses b + 1, profitLoss := profitLoss b - riskPerTrade p,
              trades := trades b + 1 \<rparr>)"

definition bucketsOk :: "(string \<Rightarrow> nat) \<Rightarrow> buckets \<Rightarrow> bool" where
  "bucketsOk c m =
     (distinct (map fst m) \<and>
      (\<forall>(k, b) \<in> set m. label b = k \<and> wins b + losses b = trades b \<and> trades b = c k))"

text \<open>
  A bucket map is in order for the counts \<open>c\<close> when its keys are distinct and each bucket
  carries its key as label, has wins + losses = trades, and has \<open>c k\<close> trades under key
  \<open>k\<close>. A state is in order when both maps are and their trades add up to the total.
\<close>

definition statsOk :: "(string \<Rightarrow> nat) \<Rightarrow> (string \<Rightarrow> nat) \<Rightarrow> sim_state \<Rightarrow> bool" where
  "statsOk cm cw s =
     (bucketsOk cm (monthlyStats s) \<and> bucketsOk cw (weeklyStats s) \<and>
      sum_list (map (\<lambda>x. trades (snd x)) (monthlyStats s)) = totalTrades s \<and>
      sum_list (map (\<lambda>x. trades (snd x)) (weeklyStats s)) = totalTrades s)"

definition registered :: "DateInfo \<Rightarrow> sim_state \<Rightarrow> bool" where
  "registered date s =
     (month date \<in> fst ` set (monthlyStats s) \<and> week date \<in> fst ` set (weeklyStats s))"

section \<open>The loops\<close>

text \<open>The inner loop runs \<open>trade\<close> once for each \<open>j = 0, 1, \<dots>\<close> below \<open>tradesPerDay\<close>.\<close>

lemma tradeLoop_funpow:
  "tradeLoop p rnd date j s = (trade p rnd date ^^ (nat \<lceil>tradesPerDay p\<rceil> - j)) s"
proof (induction p rnd date j s rule: tradeLoop.induct)
  case (1 p rnd date j s)
  show ?case
  proof (cases "real j < tradesPerDay p")
    case True
    then have "int j < \<lceil>tradesPerDay p\<rceil>" by linarith
    then have "nat \<lceil>tradesPerDay p\<rceil> - j = Suc (nat \<lceil>tradesPerDay p\<rceil> - (j + 1))" by linarith
    with True 1 show ?thesis
      by (subst tradeLoop.simps) (simp add: funpow_swap1)
  next
    case False
    then have "\<lceil>tradesPerDay p\<rceil> \<le> int j" by linarith
    then have "nat \<lceil>tradesPerDay p\<rceil> - j = 0" by linarith
    with False show ?thesis
      by (subst tradeLoop.simps) simp
  qed
qed

lemma tradeLoop_invariant:
  assumes "P s" and "\<And>s. P s \<Longrightarrow> P (trade p rnd date s)"
  shows "P (tradeLoop p rnd date j s)"
proof -
  have "P ((trade p rnd date ^^ n) s)" for n
    by (induction n) (simp_all add: assms)
  then show ?thesis
    by (simp add: tradeLoop_funpow)
qed

lemma equityCurve_trade [simp]: "equityCurve (trade p rnd date s) = equityCurve s"
  by (simp add: trade_def winUpdate_def lossUpdate_def Let_def)

lemma equityCurve_tradeLoop [simp]: "equityCurve (tradeLoop p rnd date j s) = equityCurve s"
  by (rule tradeLoop_invariant [where P = "\<lambda>t. equityCurve t = equityCurve s"]) simp_all

lemma equityCurve_drawdownUpdate [simp]: "equityCurve (drawdownUpdate date s) = equityCurve s"
  by (simp add: drawdownUpdate_def Let_def)

lemma equityCurve_simulateDay:
  "\<exists>e. equityCurve (simulateDay p rnd date s) = equityCurve s @
        [\<lparr> ep_date = fullDate date, ep_equity = e, ep_month = month date, ep_week = week date \<rparr>]"
  by (simp add: simulateDay_def Let_def)

lemma runDays_append:
  "runDays p rnd (xs @ ys) s = runDays p rnd ys (runDays p rnd xs s)"
  by (induction xs arbitrary: s) simp_all

lemma equityCurve_runDays:
  "\<exists>pts. equityCurve (runDays p rnd dates s) = equityCurve s @ pts \<and>
     length pts = length dates \<and>
     (\<forall>i < length dates. ep_date (pts ! i) = fullDate (dates ! i) \<and>
        ep_month (pts ! i) = month (dates ! i) \<and> ep_week (pts ! i) = week (dates ! i))"
proof (induction dates arbitrary: s)
  case Nil
  show ?case by simp
next
  case (Cons d ds)
  obtain e where e: "equityCurve (simulateDay p rnd d s) = equityCurve s @
        [\<lparr> ep_date = fullDate d, ep_equity = e, ep_month = month d, ep_week = week d \<rparr>]"
    using equityCurve_simulateDay by blast
  from Cons.IH [of "simulateDay p rnd d s"] obtain pts where
    pts: "equityCurve (runDays p rnd ds (simulateDay p rnd d s)) =
            equityCurve (simulateDay p rnd d s) @ pts"
      "length pts = length ds"
      "\<forall>i < length ds. ep_date (pts ! i) = fullDate (ds ! i) \<and>
        ep_month (pts ! i) = month (ds ! i) \<and> ep_week (pts ! i) = week (ds ! i)"
    by blast
  let ?pt = "\<lparr> ep_date = fullDate d, ep_equity = e, ep_month = month d, ep_week = week d \<rparr>"
  have "equityCurve (runDays p rnd (d # ds) s) = equityCurve s @ (?pt # pts)"
    using e pts(1) by simp
  moreover have "length (?pt # pts) = length (d # ds)"
    using pts(2) by simp
  moreover have "\<forall>i < length (d # ds). ep_date ((?pt # pts) ! i) = fullDate ((d # ds) ! i) \<and>
        ep_month ((?pt # pts) ! i) = month ((d # ds) ! i) \<and>
        ep_week ((?pt # pts) ! i) = week ((d # ds) ! i)"
    using pts(3) by (auto simp: nth_Cons split: nat.splits)
  ultimately show ?case by blast
qed

section \<open>The calendar generator\<close>

lemma fullDate_dateInfo_nonempty: "fullDate (dateInfo tz t) \<noteq> []"
  by (simp add: dateInfo_def Let_def)

lemma month_dateInfo_nonempty: "month (dateInfo tz t) \<noteq> []"
  by (simp add: dateInfo_def Let_def)

lemma week_dateInfo_nonempty: "week (dateInfo tz t) \<noteq> []"
  by (simp add: dateInfo_def Let_def)

lemma generateDates_loop_eq:
  "generateDates_loop tz e c acc =
     acc @ map (dateInfo tz) (filter (\<lambda>t. getDay tz t \<noteq> 0 \<and> getDay tz t \<noteq> 6)
             (map (\<lambda>k. c + int k * msPerDay) [0..<nat ((e - c) div msPerDay + 1)]))"
proof (induction tz e c acc rule: generateDates_loop.induct)
  case (1 tz e c acc)
  show ?case
  proof (cases "c \<le> e")
    case True
    let ?n = "nat ((e - nextDay c) div msPerDay + 1)"
    let ?acc = "if getDay tz c \<noteq> 0 \<and> getDay tz c \<noteq> 6 then acc @ [dateInfo tz c] else acc"
    have "(e - c) div msPerDay = (e - nextDay c) div msPerDay + 1"
      by (simp add: nextDay_def msPerDay_def)
    moreover have "0 \<le> (e - c) div msPerDay"
      using True by (simp add: msPerDay_def pos_imp_zdiv_nonneg_iff)
    ultimately have n: "nat ((e - c) div msPerDay + 1) = Suc ?n"
      by linarith
    have "[0..<Suc ?n] = 0 # map Suc [0..<?n]"
      by (simp add: upt_conv_Cons map_Suc_upt del: upt_Suc)
    then have ts: "map (\<lambda>k. c + int k * msPerDay) [0..<Suc ?n] =
            c # map (\<lambda>k. nextDay c + int k * msPerDay) [0..<?n]"
      by (simp add: nextDay_def algebra_simps del: upt_Suc)
    have "generateDates_loop tz e c acc = generateDates_loop tz e (nextDay c) ?acc"
      using True by (subst generateDates_loop.simps) simp
    also have "\<dots> = ?acc @ map (dateInfo tz) (filter (\<lambda>t. getDay tz t \<noteq> 0 \<and> getDay tz t \<noteq> 6)
             (map (\<lambda>k. nextDay c + int k * msPerDay) [0..<?n]))"
      using True by (rule "1.IH")
    also have "\<dots> = acc @ map (dateInfo tz) (filter (\<lambda>t. getDay tz t \<noteq> 0 \<and> getDay tz t \<noteq> 6)
             (map (\<lambda>k. c + int k * msPerDay) [0..<Suc ?n]))"
      unfolding ts by simp
    finally show ?thesis
      unfolding n .
  next
    case False
    then have "(e - c) div msPerDay < 0"
      by (simp add: msPerDay_def neg_imp_zdiv_neg_iff)
    then have "nat ((e - c) div msPerDay + 1) = 0" by simp
    with False show ?thesis
      by (subst generateDates_loop.simps) simp
  qed
qed

lemma generateDates_eq:
  "generateDates tz a e =
     map (dateInfo tz) (filter (\<lambda>t. getDay tz t \<noteq> 0 \<and> getDay tz t \<noteq> 6)
        (map (\<lambda>k. a + int k * msPerDay) [0..<nat ((e - a) div msPerDay + 1)]))"
  by (simp add: generateDates_def generateDates_loop_eq)

lemma generateDates_labels:
  "d \<in> set (generateDates tz a b) \<Longrightarrow> fullDate d \<noteq> [] \<and> month d \<noteq> [] \<and> week d \<noteq> []"
  by (auto simp: generateDates_eq fullDate_dateInfo_nonempty month_dateInfo_nonempty week_dateInfo_nonempty)


section \<open>Evaluation on concrete dates\<close>

lemmas date_eval = newDate_def days_from_civil_def days_from_era_def msPerDay_def dateInfo_def
  localDay_def getMonth_def getDate_def getFullYear_def civil_from_days_def civil_from_era_def
  civil_def yearOfEra_def dayOfYear_def monthOfYear_def monthShort_def showInt_def digit_def
  digits.simps weekNumber_def newDateLocal_def getDay_def nextDay_def

lemma generateDates_Jan1: "generateDates 0 (newDate 2025 1 1) (newDate 2025 1 1) = [jan1]"
  by (simp add: generateDates_def generateDates_loop.simps date_eval jan1_def)

lemma generateDates_oneDay [simp]:
  "generateDates 0 (startDate (oneDay n e)) (endDate (oneDay n e)) = [jan1]"
  by (simp add: oneDay_def generateDates_Jan1)

lemmas sim_eval = simulate_def runSimulation_def finalState_def initState_def summary_def
  simulateDay_def tradeLoop.simps trade_def isWin_def winUpdate_def lossUpdate_def
  drawdownUpdate_def register_def modify_def emptyBucket_def str_or_def str_falsy_def
  js_gt_def js_or_def breakdown_def bucketWinRate_def period_def toFixed2_def digit_def
  digits.simps BucketStats.extend_def Breakdown.fields_def Let_def

section \<open>The equity curve\<close>

lemma equityCurve_initState:
  "equityCurve (initState p dates) =
     (case dates of [] \<Rightarrow> []
      | d0 # ds \<Rightarrow> [\<lparr> ep_date = str_or (Some (fullDate d0)) ''Start'',
                       ep_equity = startingEquity p,
                       ep_month = str_or (Some (month d0)) ''Start'',
                       ep_week = str_or (Some (week d0)) ''Week 1'' \<rparr>])"
  by (simp add: initState_def Let_def)

lemma equityCurve_finalState:
  "\<exists>pts. equityCurve (finalState p rnd dates) = equityCurve (initState p dates) @ pts \<and>
     length pts = length dates \<and>
     (\<forall>i < length dates. ep_date (pts ! i) = fullDate (dates ! i) \<and>
        ep_month (pts ! i) = month (dates ! i) \<and> ep_week (pts ! i) = week (dates ! i))"
  unfolding finalState_def by (rule equityCurve_runDays)

text \<open>
  Claim C5. The equity curve of a run has one point more than there are trading days: the
  seed point, which carries the starting equity under the label of the first trading day,
  and then one point for each trading day under that day's label. With no trading day the
  curve is empty.
\<close>

theorem equity_curve_length:
  "let dates = generateDates tz (startDate p) (endDate p);
       curve = stats_equityCurve (simulate tz rnd p)
   in (dates = [] \<longrightarrow> curve = []) \<and>
      (dates \<noteq> [] \<longrightarrow>
         length curve = length dates + 1 \<and>
         ep_date (curve ! 0) = fullDate (dates ! 0) \<and>
         ep_equity (curve ! 0) = startingEquity p \<and>
         (\<forall>i < length dates. ep_date (curve ! (i + 1)) = fullDate (dates ! i)))"
proof -
  define dates where "dates = generateDates tz (startDate p) (endDate p)"
  define curve where "curve = stats_equityCurve (simulate tz rnd p)"
  have curve: "curve = equityCurve (finalState p rnd dates)"
    by (simp add: curve_def dates_def simulate_def runSimulation_def summary_def Let_def)
  obtain pts where pts: "curve = equityCurve (initState p dates) @ pts"
      "length pts = length dates"
      "\<forall>i < length dates. ep_date (pts ! i) = fullDate (dates ! i)"
    using equityCurve_finalState [of p rnd dates] unfolding curve by blast
  have empty: "curve = []" if "dates = []"
    using that pts by (simp add: equityCurve_initState)
  have nonempty: "length curve = length dates + 1 \<and>
         ep_date (curve ! 0) = fullDate (dates ! 0) \<and>
         ep_equity (curve ! 0) = startingEquity p \<and>
         (\<forall>i < length dates. ep_date (curve ! (i + 1)) = fullDate (dates ! i))"
    if ne: "dates \<noteq> []"
  proof -
    obtain d0 ds where d: "dates = d0 # ds"
      using ne by (cases dates) auto
    have "d0 \<in> set (generateDates tz (startDate p) (endDate p))"
      using d dates_def by (metis list.set_intros(1))
    then have "fullDate d0 \<noteq> []"
      using generateDates_labels by blast
    then have seed: "equityCurve (initState p dates) =
        [\<lparr> ep_date = fullDate d0, ep_equity = startingEquity p,
           ep_month = str_or (Some (month d0)) ''Start'',
           ep_week = str_or (Some (week d0)) ''Week 1'' \<rparr>]"
      by (simp add: equityCurve_initState d str_or_def)
    show ?thesis
      using pts(2,3) unfolding pts(1) seed by (simp add: d)
  qed
  show ?thesis
    using empty nonempty unfolding Let_def dates_def [symmetric] curve_def [symmetric] by blast
qed

theorem equity_curve_length_witness:
  "generateDates 0 (startDate (oneDay 1 1000)) (endDate (oneDay 1 1000)) \<noteq> [] \<and>
   length (stats_equityCurve (simulate 0 lossThenWins (oneDay 1 1000))) = 2 \<and>
   ep_date (stats_equityCurve (simulate 0 lossThenWins (oneDay 1 1000)) ! 0) = ''Jan 1 2025'' \<and>
   ep_equity (stats_equityCurve (simulate 0 lossThenWins (oneDay 1 1000)) ! 0) = 1000 \<and>
   ep_date (stats_equityCurve (simulate 0 lossThenWins (oneDay 1 1000)) ! 1) = ''Jan 1 2025''"
  using equity_curve_length [where tz = 0 and p = "oneDay 1 1000" and rnd = lossThenWins]
  by (simp add: Let_def) (simp add: jan1_def oneDay_def)

section \<open>Counters and equity under one trade\<close>

lemma counters_trade:
  "totalWins (trade p rnd date s) = (if isWin p rnd s then totalWins s + 1 else totalWins s)"
  "totalLosses (trade p rnd date s) = (if isWin p rnd s then totalLosses s else totalLosses s + 1)"
  "totalTrades (trade p rnd date s) = totalTrades s + 1"
  "dayEquity (trade p rnd date s) =
     (if isWin p rnd s then dayEquity s + riskPerTrade p * riskRewardRatio p
      else dayEquity s - riskPerTrade p)"
  "runningEquity (trade p rnd date s) = runningEquity s"
  "calls (trade p rnd date s) = calls s + 1"
  by (simp_all add: trade_def winUpdate_def lossUpdate_def Let_def)

lemma counters_drawdownUpdate [simp]:
  "totalWins (drawdownUpdate date s) = totalWins s"
  "totalLosses (drawdownUpdate date s) = totalLosses s"
  "totalTrades (drawdownUpdate date s) = totalTrades s"
  "dayEquity (drawdownUpdate date s) = dayEquity s"
  "runningEquity (drawdownUpdate date s) = runningEquity s"
  "calls (drawdownUpdate date s) = calls s"
  "monthlyStats (drawdownUpdate date s) = monthlyStats s"
  "weeklyStats (drawdownUpdate date s) = weeklyStats s"
  by (simp_all add: drawdownUpdate_def Let_def)

section \<open>Streaks\<close>

lemma streaks_trade:
  "currentWinStreak (trade p rnd date s) = (if isWin p rnd s then currentWinStreak s + 1 else 0)"
  "currentLossStreak (trade p rnd date s) = (if isWin p rnd s then 0 else currentLossStreak s + 1)"
  by (simp_all add: trade_def winUpdate_def lossUpdate_def Let_def)

lemma streaks_drawdownUpdate [simp]:
  "currentWinStreak (drawdownUpdate date s) = currentWinStreak s"
  "currentLossStreak (drawdownUpdate date s) = currentLossStreak s"
  by (simp_all add: drawdownUpdate_def Let_def)

lemma exclusive_funpow:
  assumes "currentWinStreak s = 0 \<or> currentLossStreak s = 0"
  shows "currentWinStreak ((trade p rnd date ^^ k) s) = 0 \<or>
         currentLossStreak ((trade p rnd date ^^ k) s) = 0"
  using assms by (induction k) (simp_all add: streaks_trade)

lemma exclusive_simulateDay:
  assumes "currentWinStreak s = 0 \<or> currentLossStreak s = 0"
  shows "currentWinStreak (simulateDay p rnd date s) = 0 \<or>
         currentLossStreak (simulateDay p rnd date s) = 0"
proof -
  have "currentWinStreak (tradeLoop p rnd date 0 (s\<lparr>dayEquity := runningEquity s\<rparr>)) = 0 \<or>
        currentLossStreak (tradeLoop p rnd date 0 (s\<lparr>dayEquity := runningEquity s\<rparr>)) = 0"
    unfolding tradeLoop_funpow using assms by (intro exclusive_funpow) simp
  then show ?thesis
    by (simp add: simulateDay_def Let_def)
qed

lemma exclusive_runDays:
  assumes "currentWinStreak s = 0 \<or> currentLossStreak s = 0"
  shows "currentWinStreak (runDays p rnd ds s) = 0 \<or> currentLossStreak (runDays p rnd ds s) = 0"
  using assms by (induction ds arbitrary: s) (simp_all add: exclusive_simulateDay)

text \<open>
  Claim C7. At every point of the trade-by-trade pass (after any days \<open>ds\<close> already
  simulated and any number \<open>k\<close> of trades of the day in progress) the current win
  streak and the current loss streak are not both above 0: a winning trade extends the
  win streak and resets the loss streak to 0, a losing trade does the reverse.
\<close>

theorem streak_exclusivity:
  "let s0 = runDays p rnd ds (initState p dates);
       s = (trade p rnd date ^^ k) (s0\<lparr> dayEquity := runningEquity s0 \<rparr>)
   in (currentWinStreak s = 0 \<or> currentLossStreak s = 0) \<and>
      (isWin p rnd s \<longrightarrow>
         currentWinStreak (trade p rnd date s) = currentWinStreak s + 1 \<and>
         currentLossStreak (trade p rnd date s) = 0) \<and>
      (\<not> isWin p rnd s \<longrightarrow>
         currentLossStreak (trade p rnd date s) = currentLossStreak s + 1 \<and>
         currentWinStreak (trade p rnd date s) = 0)"
proof -
  define s0 where "s0 = runDays p rnd ds (initState p dates)"
  have "currentWinStreak (initState p dates) = 0 \<or> currentLossStreak (initState p dates) = 0"
    by (simp add: initState_def Let_def)
  then have "currentWinStreak s0 = 0 \<or> currentLossStreak s0 = 0"
    unfolding s0_def by (rule exclusive_runDays)
  then have "currentWinStreak (s0\<lparr> dayEquity := runningEquity s0 \<rparr>) = 0 \<or>
             currentLossStreak (s0\<lparr> dayEquity := runningEquity s0 \<rparr>) = 0"
    by simp
  then have "currentWinStreak ((trade p rnd date ^^ k) (s0\<lparr> dayEquity := runningEquity s0 \<rparr>)) = 0 \<or>
         currentLossStreak ((trade p rnd date ^^ k) (s0\<lparr> dayEquity := runningEquity s0 \<rparr>)) = 0"
    by (rule exclusive_funpow)
  then show ?thesis
    unfolding Let_def s0_def [symmetric] by (simp add: streaks_trade)
qed

theorem streak_exclusivity_witness:
  "let p = oneDay 2 1000;
       s = (initState p [jan1])\<lparr> dayEquity := runningEquity (initState p [jan1]) \<rparr>;
       s1 = trade p lossThenWins jan1 s;
       s2 = trade p lossThenWins jan1 s1
   in \<not> isWin p lossThenWins s \<and> currentLossStreak s1 = 1 \<and> currentWinStreak s1 = 0 \<and>
      isWin p lossThenWins s1 \<and> currentWinStreak s2 = 1 \<and> currentLossStreak s2 = 0"
  using streak_exclusivity [where p = "oneDay 2 1000" and rnd = lossThenWins and ds = "[]"
      and dates = "[jan1]" and date = jan1 and k = 0]
    streak_exclusivity [where p = "oneDay 2 1000" and rnd = lossThenWins and ds = "[]"
      and dates = "[jan1]" and date = jan1 and k = 1]
  by (simp add: Let_def isWin_def counters_trade initState_def oneDay_def lossThenWins_def)

section \<open>The last point of the curve\<close>

lemma last_point_simulateDay:
  "ep_equity (last (equityCurve (simulateDay p rnd date s))) = runningEquity (simulateDay p rnd date s)"
  by (simp add: simulateDay_def Let_def)

section \<open>Monthly and weekly buckets\<close>

lemma modify_Nil [simp]: "modify k f [] = []"
  by (simp add: modify_def)

lemma modify_Cons [simp]:
  "modify k f ((k', b) # m) = (if k' = k then (k', f b) else (k', b)) # modify k f m"
  by (simp add: modify_def)

lemma modify_modify: "modify k g (modify k f m) = modify k (\<lambda>b. g (f b)) m"
  by (induction m) auto

lemma keys_modify [simp]: "map fst (modify k f m) = map fst m"
  by (induction m) auto

lemma modify_absent: "k \<notin> fst ` set m \<Longrightarrow> modify k f m = m"
  by (induction m) auto

lemma set_modify:
  "set (modify k f m) = (\<lambda>(k', b). if k' = k then (k', f b) else (k', b)) ` set m"
  by (simp add: modify_def)

lemma buckets_trade:
  "monthlyStats (trade p rnd date s) =
     modify (month date) (bucketTrade p (isWin p rnd s)) (monthlyStats s)"
  "weeklyStats (trade p rnd date s) =
     modify (week date) (bucketTrade p (isWin p rnd s)) (weeklyStats s)"
  by (simp_all add: trade_def winUpdate_def lossUpdate_def Let_def modify_modify
      bucketTrade_def [abs_def])

lemma bucketTrade_fields [simp]:
  "label (bucketTrade p w b) = label b"
  "trades (bucketTrade p w b) = trades b + 1"
  "wins (bucketTrade p w b) + losses (bucketTrade p w b) = wins b + losses b + 1"
  by (simp_all add: bucketTrade_def)

lemma bucketsOk_modify:
  assumes "bucketsOk c m"
  shows "bucketsOk (c(k := c k + 1)) (modify k (bucketTrade p w) m)"
  using assms by (auto simp: bucketsOk_def set_modify split: if_splits)

lemma sum_trades_modify:
  assumes "distinct (map fst m)" and "k \<in> fst ` set m"
  shows "sum_list (map (\<lambda>x. trades (snd x)) (modify k (bucketTrade p w) m)) =
         sum_list (map (\<lambda>x. trades (snd x)) m) + 1"
  using assms
proof (induction m)
  case Nil
  then show ?case by simp
next
  case (Cons x m)
  obtain k' b where x: "x = (k', b)" by (cases x)
  show ?case
  proof (cases "k' = k")
    case True
    then have "k \<notin> fst ` set m"
      using Cons.prems(1) x by auto
    then have "modify k (bucketTrade p w) m = m"
      by (rule modify_absent)
    then show ?thesis
      using True x by simp
  next
    case False
    then have "k \<in> fst ` set m" "distinct (map fst m)"
      using Cons.prems x by auto
    then have "sum_list (map (\<lambda>x. trades (snd x)) (modify k (bucketTrade p w) m)) =
         sum_list (map (\<lambda>x. trades (snd x)) m) + 1"
      using Cons.IH by blast
    then show ?thesis
      using False x by simp
  qed
qed

lemma keys_register: "fst ` set (register k m) = insert k (fst ` set m)"
  by (auto simp: register_def map_of_eq_None_iff)

lemma bucketsOk_register:
  assumes "bucketsOk (\<lambda>k. 0) m"
  shows "bucketsOk (\<lambda>k. 0) (register k m)"
  using assms by (auto simp: bucketsOk_def register_def emptyBucket_def map_of_eq_None_iff)

lemma registerDates_ok:
  assumes "bucketsOk (\<lambda>k. 0) ms" and "bucketsOk (\<lambda>k. 0) ws"
  shows "bucketsOk (\<lambda>k. 0) (fst (registerDates dates (ms, ws))) \<and>
         bucketsOk (\<lambda>k. 0) (snd (registerDates dates (ms, ws))) \<and>
         fst ` set (fst (registerDates dates (ms, ws))) = fst ` set ms \<union> month ` set dates \<and>
         fst ` set (snd (registerDates dates (ms, ws))) = fst ` set ws \<union> week ` set dates"
  using assms
proof (induction dates arbitrary: ms ws)
  case Nil
  then show ?case by simp
next
  case (Cons d ds)
  have "bucketsOk (\<lambda>k. 0) (register (month d) ms)" "bucketsOk (\<lambda>k. 0) (register (week d) ws)"
    using Cons.prems by (simp_all add: bucketsOk_register)
  from Cons.IH [OF this] show ?case
    by (auto simp: keys_register)
qed

lemma initState_buckets:
  "bucketsOk (\<lambda>k. 0) (monthlyStats (initState p dates))"
  "bucketsOk (\<lambda>k. 0) (weeklyStats (initState p dates))"
  "fst ` set (monthlyStats (initState p dates)) = month ` set dates"
  "fst ` set (weeklyStats (initState p dates)) = week ` set dates"
  using registerDates_ok [of "[]" "[]" dates]
  by (simp_all add: initState_def Let_def bucketsOk_def)

lemma keys_trade:
  "fst ` set (monthlyStats (trade p rnd date s)) = fst ` set (monthlyStats s)"
  "fst ` set (weeklyStats (trade p rnd date s)) = fst ` set (weeklyStats s)"
proof -
  have "map fst (monthlyStats (trade p rnd date s)) = map fst (monthlyStats s)"
    "map fst (weeklyStats (trade p rnd date s)) = map fst (weeklyStats s)"
    by (simp_all add: buckets_trade)
  then show "fst ` set (monthlyStats (trade p rnd date s)) = fst ` set (monthlyStats s)"
    "fst ` set (weeklyStats (trade p rnd date s)) = fst ` set (weeklyStats s)"
    by (metis set_map)+
qed

lemma registered_trade [simp]: "registered d (trade p rnd date s) = registered d s"
  by (simp add: registered_def keys_trade)

lemma registered_funpow [simp]: "registered d ((trade p rnd date ^^ j) s) = registered d s"
  by (induction j) simp_all

lemma registered_simulateDay [simp]: "registered d (simulateDay p rnd date s) = registered d s"
proof -
  have "registered d (simulateDay p rnd date s) =
        registered d (tradeLoop p rnd date 0 (s\<lparr>dayEquity := runningEquity s\<rparr>))"
    by (simp add: registered_def simulateDay_def Let_def)
  also have "\<dots> = registered d (s\<lparr>dayEquity := runningEquity s\<rparr>)"
    by (simp add: tradeLoop_funpow)
  also have "\<dots> = registered d s"
    by (simp add: registered_def)
  finally show ?thesis .
qed

lemma registered_runDays_step: "registered d (runDays p rnd ds s) = registered d s"
  by (induction ds arbitrary: s) simp_all

text \<open>
  Every trading day has its two buckets registered before the main loop, and they stay
  registered: no update of the run addresses a missing key.
\<close>

lemma registered_runDays:
  assumes "d \<in> set dates"
  shows "registered d (runDays p rnd ds (initState p dates))"
proof -
  have "registered d (initState p dates)"
    using assms by (simp add: registered_def initState_buckets)
  then show ?thesis
    by (simp add: registered_runDays_step)
qed

lemma sum_trades_zero:
  assumes "bucketsOk (\<lambda>k. 0) m"
  shows "sum_list (map (\<lambda>x. trades (snd x)) m) = 0"
  using assms by (fastforce simp: bucketsOk_def)

lemma statsOk_trade:
  assumes "statsOk cm cw s" and "registered date s"
  shows "statsOk (cm(month date := cm (month date) + 1)) (cw(week date := cw (week date) + 1))
           (trade p rnd date s)"
proof -
  have m: "bucketsOk cm (monthlyStats s)" and w: "bucketsOk cw (weeklyStats s)"
    and sm: "sum_list (map (\<lambda>x. trades (snd x)) (monthlyStats s)) = totalTrades s"
    and sw: "sum_list (map (\<lambda>x. trades (snd x)) (weeklyStats s)) = totalTrades s"
    using assms(1) by (simp_all add: statsOk_def)
  have dm: "distinct (map fst (monthlyStats s))" and dw: "distinct (map fst (weeklyStats s))"
    using m w by (simp_all add: bucketsOk_def)
  have km: "month date \<in> fst ` set (monthlyStats s)"
    and kw: "week date \<in> fst ` set (weeklyStats s)"
    using assms(2) by (simp_all add: registered_def)
  show ?thesis
    unfolding statsOk_def buckets_trade
    using bucketsOk_modify [OF m] bucketsOk_modify [OF w]
      sum_trades_modify [OF dm km] sum_trades_modify [OF dw kw] sm sw
    by (simp add: counters_trade)
qed

lemma statsOk_funpow:
  assumes "statsOk cm cw s" and "registered date s"
  shows "statsOk (cm(month date := cm (month date) + j)) (cw(week date := cw (week date) + j))
           ((trade p rnd date ^^ j) s)"
proof (induction j)
  case 0
  show ?case using assms(1) by simp
next
  case (Suc j)
  let ?cm = "cm(month date := cm (month date) + j)"
  let ?cw = "cw(week date := cw (week date) + j)"
  have "registered date ((trade p rnd date ^^ j) s)"
    using assms(2) by simp
  from statsOk_trade [OF Suc this, of p rnd]
  have step: "statsOk (?cm(month date := ?cm (month date) + 1))
          (?cw(week date := ?cw (week date) + 1))
          (trade p rnd date ((trade p rnd date ^^ j) s))" .
  have eqs: "?cm(month date := ?cm (month date) + 1) = cm(month date := cm (month date) + Suc j)"
    "?cw(week date := ?cw (week date) + 1) = cw(week date := cw (week date) + Suc j)"
    by simp_all
  show ?case
    using step unfolding eqs by (simp only: funpow.simps comp_apply)
qed

lemma statsOk_simulateDay:
  assumes "statsOk cm cw s" and "registered date s"
  shows "statsOk (cm(month date := cm (month date) + nat \<lceil>tradesPerDay p\<rceil>))
           (cw(week date := cw (week date) + nat \<lceil>tradesPerDay p\<rceil>))
           (simulateDay p rnd date s)"
proof -
  have "statsOk cm cw (s\<lparr>dayEquity := runningEquity s\<rparr>)"
    "registered date (s\<lparr>dayEquity := runningEquity s\<rparr>)"
    using assms by (simp_all add: statsOk_def registered_def)
  from statsOk_funpow [OF this, of "nat \<lceil>tradesPerDay p\<rceil>" p rnd] show ?thesis
    by (simp add: simulateDay_def Let_def tradeLoop_funpow statsOk_def)
qed

lemma count_snoc:
  "(\<lambda>k. n * length (filter (\<lambda>d. key d = k) (xs @ [d]))) =
   (\<lambda>k. n * length (filter (\<lambda>d. key d = k) xs))
     (key d := n * length (filter (\<lambda>d'. key d' = key d) xs) + n)"
  by (auto simp: fun_eq_iff)

lemma statsOk_runDays:
  assumes "statsOk (\<lambda>k. n * length (filter (\<lambda>d. month d = k) xs))
                   (\<lambda>k. n * length (filter (\<lambda>d. week d = k) xs)) s"
    and "\<forall>d \<in> set ds. registered d s"
    and n: "n = nat \<lceil>tradesPerDay p\<rceil>"
  shows "statsOk (\<lambda>k. n * length (filter (\<lambda>d. month d = k) (xs @ ds)))
                 (\<lambda>k. n * length (filter (\<lambda>d. week d = k) (xs @ ds))) (runDays p rnd ds s)"
  using assms(1,2)
proof (induction ds arbitrary: xs s)
  case Nil
  then show ?case by simp
next
  case (Cons d ds)
  have reg: "registered d s"
    using Cons.prems(2) by simp
  have e1: "(\<lambda>k. n * length (filter (\<lambda>d. month d = k) xs))
      (month d := n * length (filter (\<lambda>d'. month d' = month d) xs) + n) =
      (\<lambda>k. n * length (filter (\<lambda>d. month d = k) (xs @ [d])))"
    by (rule count_snoc [symmetric])
  have e2: "(\<lambda>k. n * length (filter (\<lambda>d. week d = k) xs))
      (week d := n * length (filter (\<lambda>d'. week d' = week d) xs) + n) =
      (\<lambda>k. n * length (filter (\<lambda>d. week d = k) (xs @ [d])))"
    by (rule count_snoc [symmetric])
  have "statsOk (\<lambda>k. n * length (filter (\<lambda>d. month d = k) (xs @ [d])))
          (\<lambda>k. n * length (filter (\<lambda>d. week d = k) (xs @ [d]))) (simulateDay p rnd d s)"
    using statsOk_simulateDay [OF Cons.prems(1) reg, of p rnd]
    unfolding n [symmetric] e1 e2 .
  moreover have "\<forall>d' \<in> set ds. registered d' (simulateDay p rnd d s)"
    using Cons.prems(2) by simp
  ultimately have "statsOk (\<lambda>k. n * length (filter (\<lambda>d. month d = k) ((xs @ [d]) @ ds)))
      (\<lambda>k. n * length (filter (\<lambda>d. week d = k) ((xs @ [d]) @ ds)))
      (runDays p rnd ds (simulateDay p rnd d s))"
    by (rule Cons.IH)
  then show ?case by simp
qed

lemma statsOk_finalState:
  "statsOk (\<lambda>k. nat \<lceil>tradesPerDay p\<rceil> * length (filter (\<lambda>d. month d = k) dates))
           (\<lambda>k. nat \<lceil>tradesPerDay p\<rceil> * length (filter (\<lambda>d. week d = k) dates))
           (finalState p rnd dates)"
proof -
  have "statsOk (\<lambda>k. nat \<lceil>tradesPerDay p\<rceil> * length (filter (\<lambda>d. month d = k) []))
           (\<lambda>k. nat \<lceil>tradesPerDay p\<rceil> * length (filter (\<lambda>d. week d = k) []))
           (initState p dates)"
    using initState_buckets(1,2) [of p dates]
    by (simp add: statsOk_def sum_trades_zero) (simp add: initState_def Let_def)
  moreover have "\<forall>d \<in> set dates. registered d (initState p dates)"
    by (simp add: registered_def initState_buckets)
  ultimately show ?thesis
    unfolding finalState_def
    using statsOk_runDays [of "nat \<lceil>tradesPerDay p\<rceil>" "[]" "initState p dates" dates p rnd]
    by simp
qed

lemma keys_finalState:
  "fst ` set (monthlyStats (finalState p rnd dates)) = month ` set dates"
  "fst ` set (weeklyStats (finalState p rnd dates)) = week ` set dates"
proof -
  have "registered d (finalState p rnd dates) = registered d (initState p dates)" for d
    unfolding finalState_def by (rule registered_runDays_step)
  have "map fst (monthlyStats (simulateDay p rnd date s)) = map fst (monthlyStats s)"
    "map fst (weeklyStats (simulateDay p rnd date s)) = map fst (weeklyStats s)" for date s
  proof -
    have "map fst (monthlyStats ((trade p rnd date ^^ j) t)) = map fst (monthlyStats t)"
      "map fst (weeklyStats ((trade p rnd date ^^ j) t)) = map fst (weeklyStats t)" for j t
      by (induction j) (simp_all add: buckets_trade)
    then show "map fst (monthlyStats (simulateDay p rnd date s)) = map fst (monthlyStats s)"
      "map fst (weeklyStats (simulateDay p rnd date s)) = map fst (weeklyStats s)"
      by (simp_all add: simulateDay_def Let_def tradeLoop_funpow)
  qed
  then have "map fst (monthlyStats (runDays p rnd ds s)) = map fst (monthlyStats s) \<and>
    map fst (weeklyStats (runDays p rnd ds s)) = map fst (weeklyStats s)" for ds s
    by (induction ds arbitrary: s) simp_all
  then have "map fst (monthlyStats (finalState p rnd dates)) = map fst (monthlyStats (initState p dates))"
    "map fst (weeklyStats (finalState p rnd dates)) = map fst (weeklyStats (initState p dates))"
    by (simp_all add: finalState_def)
  then show "fst ` set (monthlyStats (finalState p rnd dates)) = month ` set dates"
    "fst ` set (weeklyStats (finalState p rnd dates)) = week ` set dates"
    using initState_buckets(3,4) [of p dates] by (metis set_map)+
qed

lemma breakdown_fields [simp]:
  "label (BucketStats.extend b (Breakdown.fields x)) = label b"
  "wins (BucketStats.extend b (Breakdown.fields x)) = wins b"
  "losses (BucketStats.extend b (Breakdown.fields x)) = losses b"
  "trades (BucketStats.extend b (Breakdown.fields x)) = trades b"
  "profitLoss (BucketStats.extend b (Breakdown.fields x)) = profitLoss b"
  "winRateFixed (BucketStats.extend b (Breakdown.fields x)) = x"
  by (simp_all add: BucketStats.extend_def Breakdown.fields_def)

lemma breakdown_sums:
  "sum_list (map trades (breakdown m)) = sum_list (map (\<lambda>x. trades (snd x)) m)"
  "sum_list (map wins (breakdown m)) = sum_list (map (\<lambda>x. wins (snd x)) m)"
  "sum_list (map losses (breakdown m)) = sum_list (map (\<lambda>x. losses (snd x)) m)"
  by (simp_all add: breakdown_def comp_def)

lemma breakdown_bucket:
  assumes "bucketsOk c m" and "b \<in> set (breakdown m)"
  shows "label b \<in> fst ` set m \<and> wins b + losses b = trades b \<and> trades b = c (label b)"
  using assms by (force simp: breakdown_def bucketsOk_def)

lemma wins_losses_sum:
  assumes "bucketsOk c m"
  shows "sum_list (map (\<lambda>x. wins (snd x)) m) + sum_list (map (\<lambda>x. losses (snd x)) m) =
         sum_list (map (\<lambda>x. trades (snd x)) m)"
proof -
  have "\<forall>x \<in> set m. wins (snd x) + losses (snd x) = trades (snd x)"
    using assms by (auto simp: bucketsOk_def)
  then show ?thesis
    by (induction m) auto
qed

text \<open>
  Claim C4. In the output of every run each monthly and each weekly bucket has
  wins + losses = trades, and the trades of the monthly buckets add up to the total trade
  count of the summary, as do, independently, the trades of the weekly buckets (and hence
  the wins plus the losses of either list).
\<close>

theorem bucket_totals:
  "let r = simulate tz rnd p
   in (\<forall>b \<in> set (stats_monthlyBreakdown r). wins b + losses b = trades b) \<and>
      (\<forall>b \<in> set (stats_weeklyBreakdown r). wins b + losses b = trades b) \<and>
      sum_list (map trades (stats_monthlyBreakdown r)) = stats_totalTrades r \<and>
      sum_list (map trades (stats_weeklyBreakdown r)) = stats_totalTrades r \<and>
      sum_list (map wins (stats_monthlyBreakdown r))
        + sum_list (map losses (stats_monthlyBreakdown r)) = stats_totalTrades r \<and>
      sum_list (map wins (stats_weeklyBreakdown r))
        + sum_list (map losses (stats_weeklyBreakdown r)) = stats_totalTrades r"
proof -
  define dates where "dates = generateDates tz (startDate p) (endDate p)"
  define s where "s = finalState p rnd dates"
  define n where "n = nat \<lceil>tradesPerDay p\<rceil>"
  have ok: "bucketsOk (\<lambda>k. n * length (filter (\<lambda>d. month d = k) dates)) (monthlyStats s)"
      "bucketsOk (\<lambda>k. n * length (filter (\<lambda>d. week d = k) dates)) (weeklyStats s)"
    and sums: "sum_list (map (\<lambda>x. trades (snd x)) (monthlyStats s)) = totalTrades s"
      "sum_list (map (\<lambda>x. trades (snd x)) (weeklyStats s)) = totalTrades s"
    using statsOk_finalState [of p dates rnd] by (simp_all add: statsOk_def s_def n_def)
  have r: "stats_monthlyBreakdown (simulate tz rnd p) = breakdown (monthlyStats s)"
    "stats_weeklyBreakdown (simulate tz rnd p) = breakdown (weeklyStats s)"
    "stats_totalTrades (simulate tz rnd p) = totalTrades s"
    by (simp_all add: simulate_def runSimulation_def summary_def Let_def s_def dates_def)
  show ?thesis
    unfolding Let_def r
    using breakdown_bucket [OF ok(1)] breakdown_bucket [OF ok(2)] sums
      wins_losses_sum [OF ok(1)] wins_losses_sum [OF ok(2)]
    by (simp add: breakdown_sums)
qed

theorem bucket_totals_witness:
  "let r = simulate 0 lossThenWins (oneDay 2 1000)
   in hd (stats_monthlyBreakdown r) \<in> set (stats_monthlyBreakdown r) \<and>
      hd (stats_weeklyBreakdown r) \<in> set (stats_weeklyBreakdown r) \<and>
      wins (hd (stats_monthlyBreakdown r)) + losses (hd (stats_monthlyBreakdown r))
        = trades (hd (stats_monthlyBreakdown r)) \<and>
      wins (hd (stats_weeklyBreakdown r)) + losses (hd (stats_weeklyBreakdown r))
        = trades (hd (stats_weeklyBreakdown r)) \<and>
      stats_totalTrades r = 2 \<and>
      sum_list (map trades (stats_monthlyBreakdown r)) = 2 \<and>
      sum_list (map trades (stats_weeklyBreakdown r)) = 2"
proof -
  have ne: "stats_monthlyBreakdown (simulate 0 lossThenWins (oneDay 2 1000)) \<noteq> []"
    "stats_weeklyBreakdown (simulate 0 lossThenWins (oneDay 2 1000)) \<noteq> []"
    "stats_totalTrades (simulate 0 lossThenWins (oneDay 2 1000)) = 2"
    by (simp_all add: sim_eval oneDay_def lossThenWins_def jan1_def generateDates_Jan1)
  show ?thesis
    using bucket_totals [where tz = 0 and rnd = lossThenWins and p = "oneDay 2 1000"] ne
    by (simp add: Let_def)
qed

text \<open>
  Claim C10. With a whole number \<open>n\<close> of trades per day, every monthly and every weekly
  bucket of the output is the bucket of at least one trading day and has \<open>n\<close> trades for
  each trading day with its key; with \<open>n\<close> positive no bucket of the output has zero
  trades, so the win-rate quotient of a reported bucket never divides by zero.
\<close>

theorem bucket_trades:
  assumes "tradesPerDay p = real n"
  shows "let dates = generateDates tz (startDate p) (endDate p);
             r = simulate tz rnd p
         in (\<forall>b \<in> set (stats_monthlyBreakdown r).
               0 < length (filter (\<lambda>d. month d = label b) dates) \<and>
               trades b = n * length (filter (\<lambda>d. month d = label b) dates) \<and>
               (0 < n \<longrightarrow> 0 < trades b \<and> 0 < wins b + losses b)) \<and>
            (\<forall>b \<in> set (stats_weeklyBreakdown r).
               0 < length (filter (\<lambda>d. week d = label b) dates) \<and>
               trades b = n * length (filter (\<lambda>d. week d = label b) dates) \<and>
               (0 < n \<longrightarrow> 0 < trades b \<and> 0 < wins b + losses b))"
proof -
  define dates where "dates = generateDates tz (startDate p) (endDate p)"
  define s where "s = finalState p rnd dates"
  have n: "nat \<lceil>tradesPerDay p\<rceil> = n"
    using assms by simp
  have ok: "bucketsOk (\<lambda>k. n * length (filter (\<lambda>d. month d = k) dates)) (monthlyStats s)"
      "bucketsOk (\<lambda>k. n * length (filter (\<lambda>d. week d = k) dates)) (weeklyStats s)"
    using statsOk_finalState [of p dates rnd] by (simp_all add: statsOk_def s_def n)
  have keys: "fst ` set (monthlyStats s) = month ` set dates"
    "fst ` set (weeklyStats s) = week ` set dates"
    by (simp_all add: s_def keys_finalState)
  have r: "stats_monthlyBreakdown (simulate tz rnd p) = breakdown (monthlyStats s)"
    "stats_weeklyBreakdown (simulate tz rnd p) = breakdown (weeklyStats s)"
    by (simp_all add: simulate_def runSimulation_def summary_def Let_def s_def dates_def)
  have pos: "0 < length (filter (\<lambda>d. key d = k) dates)" if "k \<in> key ` set dates"
    for k and key :: "DateInfo \<Rightarrow> string"
    using that by (auto simp: filter_empty_conv)
  have monthly: "0 < length (filter (\<lambda>d. month d = label b) dates) \<and>
               trades b = n * length (filter (\<lambda>d. month d = label b) dates) \<and>
               (0 < n \<longrightarrow> 0 < trades b \<and> 0 < wins b + losses b)"
    if "b \<in> set (breakdown (monthlyStats s))" for b
    using breakdown_bucket [OF ok(1) that] pos [of "label b" month] keys(1) by auto
  have weekly: "0 < length (filter (\<lambda>d. week d = label b) dates) \<and>
               trades b = n * length (filter (\<lambda>d. week d = label b) dates) \<and>
               (0 < n \<longrightarrow> 0 < trades b \<and> 0 < wins b + losses b)"
    if "b \<in> set (breakdown (weeklyStats s))" for b
    using breakdown_bucket [OF ok(2) that] pos [of "label b" week] keys(2) by auto
  have "\<forall>b \<in> set (breakdown (monthlyStats s)).
               0 < length (filter (\<lambda>d. month d = label b) dates) \<and>
               trades b = n * length (filter (\<lambda>d. month d = label b) dates) \<and>
               (0 < n \<longrightarrow> 0 < trades b \<and> 0 < wins b + losses b)"
    by (rule ballI) (rule monthly)
  moreover have "\<forall>b \<in> set (breakdown (weeklyStats s)).
               0 < length (filter (\<lambda>d. week d = label b) dates) \<and>
               trades b = n * length (filter (\<lambda>d. week d = label b) dates) \<and>
               (0 < n \<longrightarrow> 0 < trades b \<and> 0 < wins b + losses b)"
    by (rule ballI) (rule weekly)
  ultimately show ?thesis
    unfolding Let_def r dates_def [symmetric] by (rule conjI)
qed

theorem bucket_trades_witness:
  "let dates = generateDates 0 (startDate (oneDay 2 1000)) (endDate (oneDay 2 1000));
       r = simulate 0 lossThenWins (oneDay 2 1000)
   in tradesPerDay (oneDay 2 1000) = real 2 \<and> (0::nat) < 2 \<and>
      hd (stats_monthlyBreakdown r) \<in> set (stats_monthlyBreakdown r) \<and>
      hd (stats_weeklyBreakdown r) \<in> set (stats_weeklyBreakdown r) \<and>
      label (hd (stats_monthlyBreakdown r)) = ''Jan 2025'' \<and>
      label (hd (stats_weeklyBreakdown r)) = ''Week 1, 2025'' \<and>
      trades (hd (stats_monthlyBreakdown r)) = 2 \<and>
      trades (hd (stats_weeklyBreakdown r)) = 2"
proof -
  have tpd: "tradesPerDay (oneDay 2 1000) = real 2"
    by (simp add: oneDay_def)
  have ne: "stats_monthlyBreakdown (simulate 0 lossThenWins (oneDay 2 1000)) \<noteq> []"
    "stats_weeklyBreakdown (simulate 0 lossThenWins (oneDay 2 1000)) \<noteq> []"
    "label (hd (stats_monthlyBreakdown (simulate 0 lossThenWins (oneDay 2 1000)))) = ''Jan 2025''"
    "label (hd (stats_weeklyBreakdown (simulate 0 lossThenWins (oneDay 2 1000)))) = ''Week 1, 2025''"
    by (simp_all add: sim_eval oneDay_def lossThenWins_def jan1_def generateDates_Jan1)
  show ?thesis
    using bucket_trades [OF tpd, where tz = 0 and rnd = lossThenWins] ne tpd
    by (simp add: Let_def jan1_def)
qed

section \<open>Drawdown\<close>

lemma js_lt_trans: "js_lt x y \<Longrightarrow> js_lt y z \<Longrightarrow> js_lt x z"
  by (cases x; cases y; cases z) simp_all

lemma js_lt_not_NaN: "js_lt x y \<Longrightarrow> x \<noteq> NaN \<and> y \<noteq> NaN"
  by (cases x; cases y) simp_all

lemma js_le_lt_trans: "js_le x y \<Longrightarrow> js_lt y z \<Longrightarrow> js_le x z"
  using js_lt_trans js_lt_not_NaN by (auto simp: js_le_def)

lemma js_le_refl: "x \<noteq> NaN \<Longrightarrow> js_le x x"
  by (simp add: js_le_def)

lemma drawdown_trade [simp]:
  "peakEquity (trade p rnd date s) = peakEquity s"
  "currentDrawdown (trade p rnd date s) = currentDrawdown s"
  "maxDrawdown (trade p rnd date s) = maxDrawdown s"
  "maxDrawdownStart (trade p rnd date s) = maxDrawdownStart s"
  "maxDrawdownEnd (trade p rnd date s) = maxDrawdownEnd s"
  by (simp_all add: trade_def winUpdate_def lossUpdate_def Let_def)

lemma drawdown_tradeLoop [simp]:
  "peakEquity (tradeLoop p rnd date j s) = peakEquity s"
  "currentDrawdown (tradeLoop p rnd date j s) = currentDrawdown s"
  "maxDrawdown (tradeLoop p rnd date j s) = maxDrawdown s"
  "maxDrawdownStart (tradeLoop p rnd date j s) = maxDrawdownStart s"
  "maxDrawdownEnd (tradeLoop p rnd date j s) = maxDrawdownEnd s"
proof -
  let ?P = "\<lambda>t::sim_state. peakEquity t = peakEquity s \<and> currentDrawdown t = currentDrawdown s \<and>
    maxDrawdown t = maxDrawdown s \<and> maxDrawdownStart t = maxDrawdownStart s \<and>
    maxDrawdownEnd t = maxDrawdownEnd s"
  have "?P (tradeLoop p rnd date j s)"
    by (rule tradeLoop_invariant) simp_all
  then show "peakEquity (tradeLoop p rnd date j s) = peakEquity s"
    "currentDrawdown (tradeLoop p rnd date j s) = currentDrawdown s"
    "maxDrawdown (tradeLoop p rnd date j s) = maxDrawdown s"
    "maxDrawdownStart (tradeLoop p rnd date j s) = maxDrawdownStart s"
    "maxDrawdownEnd (tradeLoop p rnd date j s) = maxDrawdownEnd s"
    by simp_all
qed

text \<open>The drawdown bookkeeping of one day, in terms of the equity the day ends on.\<close>

lemma drawdown_simulateDay:
  fixes s :: sim_state and p :: SimulationSettings and rnd :: "nat \<Rightarrow> real" and date :: DateInfo
  defines "s' \<equiv> simulateDay p rnd date s"
  defines "pct \<equiv> js_mul (js_div (Fin (peakEquity s - runningEquity s')) (Fin (peakEquity s))) (Fin 100)"
  shows "peakEquity s' = max (peakEquity s) (runningEquity s')"
    and "(maxDrawdown s' = maxDrawdown s \<and> maxDrawdownStart s' = maxDrawdownStart s \<and>
          maxDrawdownEnd s' = maxDrawdownEnd s) \<or>
         (\<not> peakEquity s < runningEquity s' \<and> js_lt (currentDrawdown s) pct \<and>
          js_lt (maxDrawdown s) pct \<and> maxDrawdown s' = pct \<and> currentDrawdown s' = pct \<and>
          maxDrawdownEnd s' = Some (fullDate date))"
    and "currentDrawdown s' = Fin 0 \<or> currentDrawdown s' = currentDrawdown s \<or>
         (js_lt (currentDrawdown s) pct \<and> currentDrawdown s' = pct)"
  unfolding s'_def pct_def
  by (simp_all add: simulateDay_def drawdownUpdate_def Let_def js_gt_def)

lemma peak_runDays:
  assumes "peakEquity s = Max (insert e0 (ep_equity ` set (equityCurve s)))"
  shows "peakEquity (runDays p rnd ds s) =
         Max (insert e0 (ep_equity ` set (equityCurve (runDays p rnd ds s))))"
  using assms
proof (induction ds arbitrary: s)
  case Nil
  then show ?case by simp
next
  case (Cons d ds)
  let ?s' = "simulateDay p rnd d s"
  obtain e where e: "equityCurve ?s' = equityCurve s @
        [\<lparr> ep_date = fullDate d, ep_equity = e, ep_month = month d, ep_week = week d \<rparr>]"
    using equityCurve_simulateDay by blast
  have "e = runningEquity ?s'"
    using e last_point_simulateDay [of p rnd d s] by simp
  then have "ep_equity ` set (equityCurve ?s') = insert (runningEquity ?s') (ep_equity ` set (equityCurve s))"
    using e by simp
  then have "insert e0 (ep_equity ` set (equityCurve ?s')) =
      insert (runningEquity ?s') (insert e0 (ep_equity ` set (equityCurve s)))"
    by auto
  moreover have "Max (insert (runningEquity ?s') (insert e0 (ep_equity ` set (equityCurve s)))) =
      max (runningEquity ?s') (Max (insert e0 (ep_equity ` set (equityCurve s))))"
    by (rule Max_insert) simp_all
  ultimately have "Max (insert e0 (ep_equity ` set (equityCurve ?s'))) =
      max (runningEquity ?s') (Max (insert e0 (ep_equity ` set (equityCurve s))))"
    by simp
  then have "peakEquity ?s' = Max (insert e0 (ep_equity ` set (equityCurve ?s')))"
    using drawdown_simulateDay(1) [of p rnd d s] Cons.prems by (simp add: max.commute)
  then show ?case
    using Cons.IH by simp
qed

lemma peak_initState:
  "peakEquity (initState p dates) =
     Max (insert (startingEquity p) (ep_equity ` set (equityCurve (initState p dates))))"
  by (cases dates) (simp_all add: initState_def Let_def)

lemma maxDrawdown_nonneg_runDays:
  assumes "js_le (Fin 0) (maxDrawdown s)"
  shows "js_le (Fin 0) (maxDrawdown (runDays p rnd ds s))"
  using assms
proof (induction ds arbitrary: s)
  case Nil
  then show ?case by simp
next
  case (Cons d ds)
  have "js_le (Fin 0) (maxDrawdown (simulateDay p rnd d s))"
    using drawdown_simulateDay(2) [of p rnd d s] Cons.prems js_le_lt_trans by metis
  then show ?case
    using Cons.IH by simp
qed

text \<open>
  Claim C3. Over the day-by-day pass the recorded max drawdown is never below 0 and never
  decreases. The peak it is measured against is the running peak: the largest of the
  starting equity and the equities the days so far have ended on. The max-drawdown record
  (percentage and period) changes on a day only when that day's drawdown against the
  running peak is strictly above the previous max, which it then replaces.
\<close>

theorem drawdown_monotone:
  "let s = runDays p rnd ds (initState p dates);
       s' = simulateDay p rnd date s;
       pct = js_mul (js_div (Fin (peakEquity s - runningEquity s')) (Fin (peakEquity s))) (Fin 100)
   in js_le (Fin 0) (maxDrawdown s) \<and>
      js_le (maxDrawdown s) (maxDrawdown s') \<and>
      peakEquity s = Max (insert (startingEquity p) (ep_equity ` set (equityCurve s))) \<and>
      peakEquity s' = max (peakEquity s) (runningEquity s') \<and>
      ((maxDrawdown s', maxDrawdownStart s', maxDrawdownEnd s')
          \<noteq> (maxDrawdown s, maxDrawdownStart s, maxDrawdownEnd s) \<longrightarrow>
         js_lt (maxDrawdown s) (maxDrawdown s') \<and> maxDrawdown s' = pct \<and>
         currentDrawdown s' = pct)"
proof -
  define s where "s = runDays p rnd ds (initState p dates)"
  define s' where "s' = simulateDay p rnd date s"
  define pct where
    "pct = js_mul (js_div (Fin (peakEquity s - runningEquity s')) (Fin (peakEquity s))) (Fin 100)"
  have "js_le (Fin 0) (maxDrawdown (initState p dates))"
    by (simp add: initState_def Let_def js_le_def)
  then have nonneg: "js_le (Fin 0) (maxDrawdown s)"
    unfolding s_def by (rule maxDrawdown_nonneg_runDays)
  then have notNaN: "maxDrawdown s \<noteq> NaN"
    by (simp add: js_le_def)
  have step: "(maxDrawdown s' = maxDrawdown s \<and> maxDrawdownStart s' = maxDrawdownStart s \<and>
          maxDrawdownEnd s' = maxDrawdownEnd s) \<or>
         (js_lt (maxDrawdown s) pct \<and> maxDrawdown s' = pct \<and> currentDrawdown s' = pct)"
    using drawdown_simulateDay(2) [of p rnd date s] unfolding s'_def pct_def by blast
  have mono: "js_le (maxDrawdown s) (maxDrawdown s')"
    using step notNaN js_lt_not_NaN by (auto simp: js_le_def)
  have peak: "peakEquity s = Max (insert (startingEquity p) (ep_equity ` set (equityCurve s)))"
    unfolding s_def by (rule peak_runDays) (rule peak_initState)
  have peak': "peakEquity s' = max (peakEquity s) (runningEquity s')"
    unfolding s'_def by (rule drawdown_simulateDay(1))
  show ?thesis
    unfolding Let_def s_def [symmetric] s'_def [symmetric] pct_def [symmetric]
    using nonneg mono peak peak' step by auto
qed


lemma drawdown_example: 
  "maxDrawdown (simulateDay (oneDay 1 1000) lossThenWins jan1 (initState (oneDay 1 1000) [jan1])) = Fin 10"
  "maxDrawdown (initState (oneDay 1 1000) [jan1]) = Fin 0"
  "peakEquity (initState (oneDay 1 1000) [jan1]) = 1000"
  "runningEquity (simulateDay (oneDay 1 1000) lossThenWins jan1 (initState (oneDay 1 1000) [jan1])) = 900"
  by (simp_all add: sim_eval oneDay_def lossThenWins_def jan1_def)

theorem drawdown_monotone_witness:
  "let p = oneDay 1 1000;
       s = runDays p lossThenWins [] (initState p [jan1]);
       s' = simulateDay p lossThenWins jan1 s
   in (maxDrawdown s', maxDrawdownStart s', maxDrawdownEnd s')
        \<noteq> (maxDrawdown s, maxDrawdownStart s, maxDrawdownEnd s) \<and>
      maxDrawdown s = Fin 0 \<and> maxDrawdown s' = Fin 10 \<and> js_lt (maxDrawdown s) (maxDrawdown s') \<and>
      peakEquity s = 1000 \<and> runningEquity s' = 900 \<and> peakEquity s' = 1000"
  using drawdown_monotone [where p = "oneDay 1 1000" and rnd = lossThenWins and ds = "[]"
      and dates = "[jan1]" and date = jan1]
  unfolding Let_def by (simp add: drawdown_example)

section \<open>Summary numbers\<close>

lemma is_finite_Fin [simp]: "is_finite (Fin a)" "\<not> is_finite PInf" "\<not> is_finite NInf" "\<not> is_finite NaN"
  by (simp_all add: is_finite_def)















lemma summary_example:
  "stats_monthlyBreakdown (simulate 0 lossThenWins (oneDay 1 1000)) \<noteq> []"
  "stats_weeklyBreakdown (simulate 0 lossThenWins (oneDay 1 1000)) \<noteq> []"
  "stats_maxDrawdown (simulate 0 lossThenWins (oneDay 1 1000)) = Fin 10"
  "stats_winRate (simulate 0 lossThenWins (oneDay 1 1000)) = Fin 55"
  "winRateFixed (hd (stats_monthlyBreakdown (simulate 0 lossThenWins (oneDay 1 1000)))) = ''0.00''"
  "totalWins (finalState (oneDay 1 1000) lossThenWins [jan1]) = 0"
  "totalLosses (finalState (oneDay 1 1000) lossThenWins [jan1]) = 1"
  by (simp_all add: sim_eval oneDay_def lossThenWins_def jan1_def generateDates_Jan1)




text \<open>
  Claim C1 fails on the code by a slip: the fallback is written \<open>rate || params.winRate\<close>,
  and \<open>||\<close> takes its right operand for a rate of 0 as well as for NaN. A run at a
  configured win rate of 55 whose only trade loses has one decided trade and reports a
  realized win rate of 55, where the claim says 0; the monthly bucket of the same trade,
  whose fallback is \<open>|| 0\<close>, reports 0.00.
\<close>

theorem win_rate_all_losses:
  "totalWins (finalState (oneDay 1 1000) lossThenWins [jan1]) = 0 \<and>
   totalLosses (finalState (oneDay 1 1000) lossThenWins [jan1]) = 1 \<and>
   simulate 0 lossThenWins (oneDay 1 1000) = runSimulation (oneDay 1 1000) lossThenWins [jan1] \<and>
   winRate (oneDay 1 1000) = 55 \<and>
   stats_winRate (simulate 0 lossThenWins (oneDay 1 1000)) = Fin 55 \<and>
   winRateFixed (hd (stats_monthlyBreakdown (simulate 0 lossThenWins (oneDay 1 1000)))) = ''0.00''"
  using summary_example by (simp add: simulate_def) (simp add: oneDay_def)

section \<open>The calendar in the host time zone\<close>

lemma dateObj_generateDates:
  "map dateObj (generateDates tz a e) =
     filter (\<lambda>t. getDay tz t \<noteq> 0 \<and> getDay tz t \<noteq> 6)
       (map (\<lambda>k. a + int k * msPerDay) [0..<nat ((e - a) div msPerDay + 1)])"
proof -
  have "map dateObj (map (dateInfo tz) ts) = ts" for ts
    by (induction ts) (simp_all add: dateInfo_def Let_def)
  then show ?thesis
    by (simp only: generateDates_eq)
qed

lemma generateDates_weekdays:
  assumes "d \<in> set (generateDates tz a e)"
  shows "getDay tz (dateObj d) \<noteq> 0 \<and> getDay tz (dateObj d) \<noteq> 6 \<and> a \<le> dateObj d \<and> dateObj d \<le> e"
proof -
  obtain k where k: "k < nat ((e - a) div msPerDay + 1)" and d: "d = dateInfo tz (a + int k * msPerDay)"
    and wd: "getDay tz (a + int k * msPerDay) \<noteq> 0 \<and> getDay tz (a + int k * msPerDay) \<noteq> 6"
    using assms by (auto simp: generateDates_eq)
  have "int k \<le> (e - a) div msPerDay"
    using k by linarith
  then have "int k * msPerDay \<le> (e - a) div msPerDay * msPerDay"
    by (simp add: msPerDay_def)
  also have "\<dots> \<le> e - a"
    by (simp add: msPerDay_def)
  finally have "a + int k * msPerDay \<le> e" by simp
  moreover have "a \<le> a + int k * msPerDay"
    by (simp add: msPerDay_def)
  moreover have "dateObj d = a + int k * msPerDay"
    by (simp add: d dateInfo_def Let_def)
  ultimately show ?thesis
    using wd by simp
qed
lemma generateDates_empty:
  assumes "e < a"
  shows "generateDates tz a e = []"
  using assms by (simp add: generateDates_def generateDates_loop.simps)

lemma generateDates_sorted:
  "sorted_wrt (<) (map dateObj (generateDates tz a e))"
proof -
  let ?n = "nat ((e - a) div msPerDay + 1)"
  have "sorted_wrt (\<lambda>i j. a + int i * msPerDay < a + int j * msPerDay) [0..<?n]"
    by (rule sorted_wrt_mono_rel [OF _ sorted_wrt_upt]) (simp add: msPerDay_def)
  then have "sorted_wrt (<) (map (\<lambda>k. a + int k * msPerDay) [0..<?n])"
    by (simp add: sorted_wrt_map)
  then show ?thesis
    unfolding dateObj_generateDates by (rule sorted_wrt_filter)
qed

lemma localDay_midnight:
  assumes "- 1440 < tz" and "tz < 1440"
  shows "localDay tz (x * msPerDay) = (if tz < 0 then x - 1 else x)"
proof (cases "tz < 0")
  case True
  have "(x * msPerDay + tz * 60000) div msPerDay = x - 1"
  proof (rule int_div_pos_eq)
    show "x * msPerDay + tz * 60000 = msPerDay * (x - 1) + (msPerDay + tz * 60000)"
      by (simp add: algebra_simps)
    show "0 \<le> msPerDay + tz * 60000" "msPerDay + tz * 60000 < msPerDay"
      using assms True by (simp_all add: msPerDay_def)
  qed
  with True show ?thesis by (simp add: localDay_def)
next
  case False
  have "(x * msPerDay + tz * 60000) div msPerDay = x"
  proof (rule int_div_pos_eq)
    show "x * msPerDay + tz * 60000 = msPerDay * x + tz * 60000"
      by (simp add: algebra_simps)
    show "0 \<le> tz * 60000" "tz * 60000 < msPerDay"
      using assms False by (simp_all add: msPerDay_def)
  qed
  with False show ?thesis by (simp add: localDay_def)
qed
lemma getDay_midnight:
  assumes "- 1440 < tz" and "tz < 1440"
  shows "getDay tz (x * msPerDay + int k * msPerDay) =
     (if tz < 0 then (x + int k + 3) mod 7 else (x + int k + 4) mod 7)"
proof -
  have "x * msPerDay + int k * msPerDay = (x + int k) * msPerDay"
    by (simp add: algebra_simps)
  then show ?thesis
    using localDay_midnight [OF assms, of "x + int k"] by (simp add: getDay_def algebra_simps)
qed

text \<open>
  At or east of UTC the generator returns exactly the weekdays from the start date to the
  end date, as days since 1970-01-01, in order.
\<close>

lemma generateDates_east_of_utc:
  assumes "0 \<le> tz" and "tz < 1440"
  shows "map dateObj (generateDates tz (x * msPerDay) (y * msPerDay)) =
     map (\<lambda>d. d * msPerDay) (filter (\<lambda>d. (d + 4) mod 7 \<noteq> 0 \<and> (d + 4) mod 7 \<noteq> 6) [x..y])"
proof -
  let ?n = "nat (y - x + 1)"
  have tz: "- 1440 < tz"
    using assms(1) by simp
  have n: "nat ((y * msPerDay - x * msPerDay) div msPerDay + 1) = ?n"
  proof -
    have "y * msPerDay - x * msPerDay = (y - x) * msPerDay"
      by (simp add: algebra_simps)
    then show ?thesis
      by (simp add: msPerDay_def)
  qed
  have days: "[x..y] = map (\<lambda>k. x + int k) [0..<?n]"
  proof (rule nth_equalityI)
    show "length [x..y] = length (map (\<lambda>k. x + int k) [0..<?n])"
      by simp
  next
    fix i assume "i < length [x..y]"
    then show "[x..y] ! i = map (\<lambda>k. x + int k) [0..<?n] ! i"
      by simp
  qed
  have wd: "getDay tz (x * msPerDay + int k * msPerDay) = (x + int k + 4) mod 7" for k
    using getDay_midnight [OF tz assms(2), of x k] assms(1) by simp
  have "filter (\<lambda>t. getDay tz t \<noteq> 0 \<and> getDay tz t \<noteq> 6)
          (map (\<lambda>k. x * msPerDay + int k * msPerDay) ks) =
        map (\<lambda>d. d * msPerDay)
          (filter (\<lambda>d. (d + 4) mod 7 \<noteq> 0 \<and> (d + 4) mod 7 \<noteq> 6) (map (\<lambda>k. x + int k) ks))" for ks
    by (induction ks) (simp_all add: wd distrib_right)
  then show ?thesis
    unfolding dateObj_generateDates n days .
qed

lemmas day_eval = newDate_def days_from_civil_def days_from_era_def msPerDay_def localDay_def
  getDate_def getDay_def civil_from_days_def civil_from_era_def civil_def yearOfEra_def
  dayOfYear_def monthOfYear_def

text \<open>
  Claim C6 holds for the calendar dates the generator reads, which are local, but not for
  the dates the settings name: the form's date-only strings are parsed as midnight UTC and
  read back with local-time getters, and west of UTC every such instant is the evening of
  the day before. In a zone five hours west, the range that is the single Monday
  2025-01-06 yields no trading day (the claim: one); the week from Monday 2025-01-06 to
  Friday 2025-01-10 yields four, which local time reads as Monday the 6th to Thursday the
  9th (the claim: five); and the single Saturday 2025-01-04 yields one trading day, read
  as Friday the 3rd (the claim: none). At UTC the same week yields its five days.
\<close>

theorem calendar_west_of_utc:
  "getDay 0 (newDate 2025 1 6) = 1 \<and> getDay 0 (newDate 2025 1 10) = 5 \<and>
   getDay 0 (newDate 2025 1 4) = 6 \<and>
   generateDates (- 300) (newDate 2025 1 6) (newDate 2025 1 6) = [] \<and>
   map dateObj (generateDates (- 300) (newDate 2025 1 6) (newDate 2025 1 10)) =
     [newDate 2025 1 7, newDate 2025 1 8, newDate 2025 1 9, newDate 2025 1 10] \<and>
   getDate (- 300) (newDate 2025 1 7) = 6 \<and> getDay (- 300) (newDate 2025 1 7) = 1 \<and>
   getDate (- 300) (newDate 2025 1 10) = 9 \<and> getDay (- 300) (newDate 2025 1 10) = 4 \<and>
   map dateObj (generateDates (- 300) (newDate 2025 1 4) (newDate 2025 1 4)) =
     [newDate 2025 1 4] \<and>
   getDate (- 300) (newDate 2025 1 4) = 3 \<and> getDay (- 300) (newDate 2025 1 4) = 5 \<and>
   map dateObj (generateDates 0 (newDate 2025 1 6) (newDate 2025 1 10)) =
     [newDate 2025 1 6, newDate 2025 1 7, newDate 2025 1 8, newDate 2025 1 9,
      newDate 2025 1 10]"
proof -
  have n: "nat ((newDate 2025 1 10 - newDate 2025 1 6) div msPerDay + 1) = 5"
    "nat ((newDate 2025 1 4 - newDate 2025 1 4) div msPerDay + 1) = 1"
    by (simp_all add: day_eval)
  have upt: "[0..<5] = [0, 1, 2, 3, 4]" "[0..<1] = [0]"
    by (simp_all add: upt_conv_Cons)
  have none: "generateDates (- 300) (newDate 2025 1 6) (newDate 2025 1 6) = []"
    by (simp add: generateDates_def generateDates_loop.simps day_eval nextDay_def)
  show ?thesis
    unfolding dateObj_generateDates n upt none by (simp add: day_eval)
qed

section \<open>The scenario of the specification\<close>

lemma scenario_fields [simp]:
  "tradesPerDay (scenario w) = 1" "winRate (scenario w) = w" "riskPerTrade (scenario w) = 100"
  "riskRewardRatio (scenario w) = 2" "startingEquity (scenario w) = 1000"
  "startDate (scenario w) = newDate 2025 1 1" "endDate (scenario w) = newDate 2025 1 10"
  by (simp_all add: scenario_def)

lemma scenario_calendar:
  assumes "- 1440 < tz" and "tz < 1440"
  shows "length (generateDates tz (startDate (scenario w)) (endDate (scenario w))) = 8"
proof -
  define g where "g k = getDay tz (20089 * msPerDay + int k * msPerDay)" for k
  have a: "newDate 2025 1 1 = 20089 * msPerDay" and e: "newDate 2025 1 10 = 20098 * msPerDay"
    by (simp_all add: newDate_def days_from_civil_def days_from_era_def)
  have n: "nat ((20098 * msPerDay - 20089 * msPerDay) div msPerDay + 1) = 10"
    by (simp add: msPerDay_def)
  have upt: "[0..<10] = [0, 1, 2, 3, 4, 5, 6, 7, 8, 9]"
    by (simp add: upt_conv_Cons)
  have g: "g k = (if tz < 0 then (20092 + int k) mod 7 else (20093 + int k) mod 7)" for k
  proof -
    have "20089 + int k + 3 = 20092 + int k" "20089 + int k + 4 = 20093 + int k"
      by simp_all
    then show ?thesis
      unfolding g_def getDay_midnight [OF assms] by simp
  qed
  have count: "length (filter (\<lambda>t. getDay tz t \<noteq> 0 \<and> getDay tz t \<noteq> 6)
           (map (\<lambda>k. 20089 * msPerDay + int k * msPerDay) ks)) =
        length (filter (\<lambda>k. g k \<noteq> 0 \<and> g k \<noteq> 6) ks)" for ks
    by (induction ks) (simp_all add: g_def)
  have eight: "length (filter (\<lambda>k. g k \<noteq> 0 \<and> g k \<noteq> 6) [0, 1, 2, 3, 4, 5, 6, 7, 8, 9]) = 8"
    by (cases "tz < 0") (simp_all add: g)
  have "length (generateDates tz (startDate (scenario w)) (endDate (scenario w))) =
      length (filter (\<lambda>t. getDay tz t \<noteq> 0 \<and> getDay tz t \<noteq> 6)
           (map (\<lambda>k. 20089 * msPerDay + int k * msPerDay) [0, 1, 2, 3, 4, 5, 6, 7, 8, 9]))"
    unfolding generateDates_eq scenario_fields a e n upt by (rule length_map)
  also have "\<dots> = 8"
    unfolding count by (rule eight)
  finally show ?thesis .
qed

lemma lostDays_simulateDay:
  assumes "lostDays n s" and "\<forall>k. 0 \<le> rnd k"
  shows "lostDays (Suc n) (simulateDay (scenario 0) rnd date s)"
proof -
  have loss: "\<not> isWin (scenario 0) rnd t" for t
    using assms(2) by (simp add: isWin_def not_less)
  have loop: "tradeLoop (scenario 0) rnd date 0 t = trade (scenario 0) rnd date t" for t
    by (simp add: tradeLoop.simps [of _ _ _ 0] tradeLoop.simps [of _ _ _ "Suc 0"])
  show ?thesis
    using assms(1)
    by (simp add: lostDays_def simulateDay_def loop trade_def loss lossUpdate_def
        drawdownUpdate_def js_gt_def Let_def)
qed

lemma lostDays_runDays:
  assumes "lostDays n s" and "\<forall>k. 0 \<le> rnd k"
  shows "lostDays (n + length ds) (runDays (scenario 0) rnd ds s)"
  using assms(1)
proof (induction ds arbitrary: n s)
  case Nil
  then show ?case by simp
next
  case (Cons d ds)
  have "lostDays (Suc n) (simulateDay (scenario 0) rnd d s)"
    using Cons.prems assms(2) by (rule lostDays_simulateDay)
  from Cons.IH [OF this] show ?case by simp
qed

text \<open>
  Claim C8. In the scenario run at win rate 0, with draws in [0, 1) and whatever the
  constant offset of the host time zone, no draw is below the win probability 0, so every
  trade loses; there are 8 trading days, and the summary has final equity 200, max
  drawdown 80, max win streak 0 and max loss streak 8. On this input the amounts are whole
  numbers and the eight drawdown percentages 10, 20, \<dots>, 80 are what the double
  operations return as well.
\<close>

theorem scenario_all_losses:
  assumes "- 1440 < tz" and "tz < 1440" and "\<forall>k. 0 \<le> rnd k \<and> rnd k < 1"
  shows "let dates = generateDates tz (startDate (scenario 0)) (endDate (scenario 0));
             s = finalState (scenario 0) rnd dates;
             r = simulate tz rnd (scenario 0)
         in length dates = 8 \<and> totalWins s = 0 \<and> totalLosses s = 8 \<and>
            stats_totalTrades r = 8 \<and> stats_finalEquity r = 200 \<and>
            stats_maxDrawdown r = Fin 80 \<and> stats_maxWinStreak r = 0 \<and>
            stats_maxLossStreak r = 8"
proof -
  define dates where "dates = generateDates tz (startDate (scenario 0)) (endDate (scenario 0))"
  define s where "s = finalState (scenario 0) rnd dates"
  have len: "length dates = 8"
    unfolding dates_def using assms(1,2) by (rule scenario_calendar)
  have rnd: "\<forall>k. 0 \<le> rnd k"
    using assms(3) by simp
  have "lostDays 0 (initState (scenario 0) dates)"
    by (simp add: lostDays_def initState_def Let_def)
  from lostDays_runDays [OF this rnd, of dates]
  have s: "lostDays 8 s"
    by (simp add: s_def finalState_def len)
  have r: "simulate tz rnd (scenario 0) = summary (scenario 0) dates s"
    unfolding simulate_def runSimulation_def dates_def s_def ..
  show ?thesis
    unfolding Let_def dates_def [symmetric] s_def [symmetric] r
    using s len by (simp add: lostDays_def summary_def Let_def)
qed

theorem scenario_all_losses_witness:
  "- 1440 < (0::int) \<and> (0::int) < 1440 \<and> (0::real) \<le> 1 / 2 \<and> (1::real) / 2 < 1 \<and>
   stats_finalEquity (simulate 0 (\<lambda>k. 1 / 2) (scenario 0)) = 200 \<and>
   stats_maxDrawdown (simulate 0 (\<lambda>k. 1 / 2) (scenario 0)) = Fin 80 \<and>
   stats_maxWinStreak (simulate 0 (\<lambda>k. 1 / 2) (scenario 0)) = 0 \<and>
   stats_maxLossStreak (simulate 0 (\<lambda>k. 1 / 2) (scenario 0)) = 8"
  using scenario_all_losses [where tz = 0 and rnd = "\<lambda>k. 1 / 2"]
  by (simp add: Let_def)

end
